theory Spec2Isabelle
  imports Main "HOL-Library.Sublist"
begin

section \<open>Python strings\<close>

text \<open>
  The three converters (\<^verbatim>\<open>agents2rules.py\<close>, \<^verbatim>\<open>instructions2rules.py\<close>,
  \<^verbatim>\<open>prompts2commands.py\<close>) work on Python \<^verbatim>\<open>str\<close> values. A text is modelled as a
  \<^typ>\<open>string\<close>; a \<^typ>\<open>char\<close> stands for the code point of the same number, so the
  model covers the texts whose code points are below 256. The string methods the
  source calls are written out below with Python's behaviour on that range.
\<close>

abbreviation LF :: char where "LF \<equiv> CHR 0x0A"
abbreviation CR :: char where "CR \<equiv> CHR 0x0D"
abbreviation DQ :: char where "DQ \<equiv> CHR 0x22"
abbreviation SQ :: char where "SQ \<equiv> CHR 0x27"
abbreviation BSL :: char where "BSL \<equiv> CHR 0x5C"

text \<open>The line boundaries of \<^verbatim>\<open>str.splitlines\<close> (below code point 256).\<close>

definition is_linebreak :: "char \<Rightarrow> bool" where
  "is_linebreak c \<longleftrightarrow>
     c = CHR 0x0A \<or> c = CHR 0x0B \<or> c = CHR 0x0C \<or> c = CHR 0x0D \<or>
     c = CHR 0x1C \<or> c = CHR 0x1D \<or> c = CHR 0x1E \<or> c = CHR 0x85"

text \<open>The characters \<^verbatim>\<open>str.strip\<close> removes: those with \<^verbatim>\<open>str.isspace\<close> (below 256).\<close>

definition is_space :: "char \<Rightarrow> bool" where
  "is_space c \<longleftrightarrow>
     c = CHR 0x09 \<or> c = CHR 0x0A \<or> c = CHR 0x0B \<or> c = CHR 0x0C \<or> c = CHR 0x0D \<or>
     c = CHR 0x1C \<or> c = CHR 0x1D \<or> c = CHR 0x1E \<or> c = CHR 0x1F \<or>
     c = CHR 0x20 \<or> c = CHR 0x85 \<or> c = CHR 0xA0"

definition lstrip :: "string \<Rightarrow> string" where
  "lstrip s = dropWhile is_space s"

definition rstrip :: "string \<Rightarrow> string" where
  "rstrip s = rev (dropWhile is_space (rev s))"

definition strip :: "string \<Rightarrow> string" where
  "strip s = rstrip (lstrip s)"

definition startswith :: "string \<Rightarrow> string \<Rightarrow> bool" where
  "startswith s p = prefix p s"

definition endswith :: "string \<Rightarrow> string \<Rightarrow> bool" where
  "endswith s p = suffix p s"

text \<open>
  \<^verbatim>\<open>text.splitlines()\<close>: the text is cut at every line boundary, CR LF counting as
  one; the boundaries are dropped, and a text that ends with a boundary has no empty
  last line. \<open>cur\<close> is the line being read.
\<close>

fun splitlines_from :: "string \<Rightarrow> string \<Rightarrow> string list" where
  "splitlines_from cur [] = (if cur = [] then [] else [cur])"
| "splitlines_from cur [c] = (if is_linebreak c then [cur] else [cur @ [c]])"
| "splitlines_from cur (c # d # cs) =
     (if c = CR \<and> d = LF then cur # splitlines_from [] cs
      else if is_linebreak c then cur # splitlines_from [] (d # cs)
      else splitlines_from (cur @ [c]) (d # cs))"

definition splitlines :: "string \<Rightarrow> string list" where
  "splitlines text = splitlines_from [] text"

text \<open>\<^verbatim>\<open>sep.join(parts)\<close>.\<close>

fun join :: "string \<Rightarrow> string list \<Rightarrow> string" where
  "join sep [] = []"
| "join sep [x] = x"
| "join sep (x # y # ys) = x @ sep @ join sep (y # ys)"

text \<open>
  \<^verbatim>\<open>s.replace(old, new)\<close>: the occurrences of \<open>old\<close> are replaced from the left,
  without overlap. (With an empty \<open>old\<close> Python puts \<open>new\<close> before every character and
  at the end.)
\<close>

function replace :: "string \<Rightarrow> string \<Rightarrow> string \<Rightarrow> string" where
  "replace old new s =
     (if old = [] then new @ concat (map (\<lambda>c. c # new) s)
      else if s = [] then []
      else if prefix old s then new @ replace old new (drop (length old) s)
      else hd s # replace old new (tl s))"
  by pat_completeness auto
termination
  by (relation "measure (\<lambda>(old, new, s). length s)") auto

declare replace.simps [simp del]

section \<open>Product names (\<^verbatim>\<open>normalize_text\<close>)\<close>

text \<open>
  \<^verbatim>\<open>normalize_text\<close> of \<^verbatim>\<open>prompts2commands.py\<close>; the two rule builders apply the same
  chain of four replacements to the description and to the body.
\<close>

definition normalize_text :: "string \<Rightarrow> string" where
  "normalize_text text =
     replace ''VSCode'' ''Cursor''
       (replace ''VS Code'' ''Cursor''
         (replace ''Visual Studio Code'' ''Cursor''
           (replace ''GitHub Copilot'' ''Cursor AI'' text)))"

section \<open>Values, exceptions and literal evaluation\<close>

text \<open>
  The values a frontmatter field can hold (\<^verbatim>\<open>Any\<close> in the source): strings, and what
  \<^verbatim>\<open>ast.literal_eval\<close> builds. The source looks at a value through
  \<^verbatim>\<open>isinstance(_, str)\<close>, \<^verbatim>\<open>isinstance(_, list)\<close>, \<^verbatim>\<open>is None\<close> and \<^verbatim>\<open>str(_)\<close> only, so a
  value of any further type (a float, a complex number, bytes, \<^verbatim>\<open>Ellipsis\<close>, a
  dictionary, a set) is \<open>VOther\<close>, with whether it is hashable and the text that
  \<^verbatim>\<open>str\<close> and \<^verbatim>\<open>repr\<close> both give for it. The exceptions are the classes the standard
  library raises on the paths the source takes; \<open>OSError\<close> carries \<^verbatim>\<open>str(exc)\<close>.
  \<open>NotModelled\<close> is no Python exception: it marks an input outside the part of
  Python's literal syntax that \<open>literal_eval\<close> below covers.
\<close>

datatype pyval =
    VStr string | VBool bool | VNone | VInt int
  | VList "pyval list" | VTuple "pyval list" | VOther bool string

datatype exn =
    SyntaxError | ValueError | TypeError | MemoryError | RecursionError
  | UnicodeDecodeError | OSError string | NotModelled

text \<open>
  \<^verbatim>\<open>ast.literal_eval\<close> is the standard library's, not the repository's. The source
  functions take it as the parameter \<open>le\<close>; \<open>literal_eval\<close> is its behaviour on a
  fragment of Python's syntax: list and set displays, and tuples written at top
  level without parentheses, of names, of \<^verbatim>\<open>True\<close>, \<^verbatim>\<open>False\<close>, \<^verbatim>\<open>None\<close>, of decimal
  integers without sign, and of string literals in single or double quotes that hold
  printable ASCII without backslash, separated by commas, spaces and tabs. Everything
  else (other numbers, integers with a leading zero or more than \<open>max_digits\<close>
  digits, operators, parentheses, dictionaries, string prefixes and escapes, triple
  quotes, adjacent string literals, subscripts, nesting deeper than \<open>max_depth\<close>,
  and a set that evaluates without error) is \<open>NotModelled\<close>.
\<close>

datatype token =
    TLBrack | TRBrack | TLBrace | TRBrace | TComma
  | TName string | TStr string | TConst pyval

definition is_ident_start :: "char \<Rightarrow> bool" where
  "is_ident_start c \<longleftrightarrow>
     c \<in> set ''abcdefghijklmnopqrstuvwxyzABCDEFGHIJKLMNOPQRSTUVWXYZ_''"

definition is_ident_char :: "char \<Rightarrow> bool" where
  "is_ident_char c \<longleftrightarrow> is_ident_start c \<or> c \<in> set ''0123456789''"

definition is_digit :: "char \<Rightarrow> bool" where
  "is_digit c \<longleftrightarrow> c \<in> set ''0123456789''"

definition decimal :: "string \<Rightarrow> nat" where
  "decimal ds = foldl (\<lambda>n d. 10 * n + (of_char d - 48)) 0 ds"

definition max_digits :: nat where
  "max_digits = 100"

definition is_str_char :: "char \<Rightarrow> bool" where
  "is_str_char c \<longleftrightarrow> 32 \<le> (of_char c :: nat) \<and> (of_char c :: nat) \<le> 126 \<and> c \<noteq> BSL"

definition py_keywords :: "string list" where
  "py_keywords =
     [''and'', ''as'', ''assert'', ''async'', ''await'', ''break'', ''class'',
      ''continue'', ''def'', ''del'', ''elif'', ''else'', ''except'', ''finally'',
      ''for'', ''from'', ''global'', ''if'', ''import'', ''in'', ''is'', ''lambda'',
      ''nonlocal'', ''not'', ''or'', ''pass'', ''raise'', ''return'', ''try'',
      ''while'', ''with'', ''yield'']"

definition name_token :: "string \<Rightarrow> token" where
  "name_token n =
     (if n = ''True'' then TConst (VBool True)
      else if n = ''False'' then TConst (VBool False)
      else if n = ''None'' then TConst VNone
      else TName n)"

definition cons_token :: "token \<Rightarrow> exn + token list \<Rightarrow> exn + token list" where
  "cons_token t r = (case r of Inl e \<Rightarrow> Inl e | Inr ts \<Rightarrow> Inr (t # ts))"

function tokenize :: "string \<Rightarrow> exn + token list" where
  "tokenize [] = Inr []"
| "tokenize (c # cs) =
     (if c = CHR '' '' \<or> c = CHR 0x09 then tokenize cs
      else if c = CHR ''['' then cons_token TLBrack (tokenize cs)
      else if c = CHR '']'' then cons_token TRBrack (tokenize cs)
      else if c = CHR ''{'' then cons_token TLBrace (tokenize cs)
      else if c = CHR ''}'' then cons_token TRBrace (tokenize cs)
      else if c = CHR '','' then cons_token TComma (tokenize cs)
      else if c = SQ \<or> c = DQ then
        (if prefix [c, c] cs then Inl NotModelled
         else if \<not> list_all is_str_char (takeWhile (\<lambda>x. x \<noteq> c) cs) then Inl NotModelled
         else if dropWhile (\<lambda>x. x \<noteq> c) cs = [] then Inl SyntaxError
         else cons_token (TStr (takeWhile (\<lambda>x. x \<noteq> c) cs))
                (tokenize (tl (dropWhile (\<lambda>x. x \<noteq> c) cs))))
      else if is_ident_start c then
        (if dropWhile is_ident_char cs \<noteq> [] \<and>
            (hd (dropWhile is_ident_char cs) = SQ \<or> hd (dropWhile is_ident_char cs) = DQ)
         then Inl NotModelled
         else if c # takeWhile is_ident_char cs \<in> set py_keywords then Inl NotModelled
         else cons_token (name_token (c # takeWhile is_ident_char cs))
                (tokenize (dropWhile is_ident_char cs)))
      else if is_digit c then
        (if dropWhile is_digit cs \<noteq> [] \<and>
            (is_ident_char (hd (dropWhile is_digit cs)) \<or> hd (dropWhile is_digit cs) = CHR ''.'')
         then Inl NotModelled
         else if max_digits < length (c # takeWhile is_digit cs) then Inl NotModelled
         else if c = CHR ''0'' \<and> takeWhile is_digit cs \<noteq> [] then Inl NotModelled
         else cons_token (TConst (VInt (int (decimal (c # takeWhile is_digit cs)))))
                (tokenize (dropWhile is_digit cs)))
      else Inl NotModelled)"
  by pat_completeness auto
termination
proof (relation "measure length")
qed (simp_all add: less_Suc_eq_le length_dropWhile_le,
     metis diff_le_self le_trans length_dropWhile_le)

datatype ast =
    Name string | Constant pyval
  | ListNode "ast list" | SetNode "ast list" | TupleNode "ast list"

datatype bracket = Square | Curly | Top

text \<open>
  The parser reads the tokens from the left, holding the open displays (innermost
  first, each with the items read so far) and where it stands: before the top
  expression, just after an opening bracket, just after a comma, or just after an
  item (with the item, and whether that was a string literal). A comma after the
  top expression opens a tuple without brackets (\<open>Top\<close>), which the end of the
  input closes.
\<close>

datatype pstate = Start | AfterOpen | AfterComma | AfterItem ast bool

definition max_depth :: nat where
  "max_depth = 50"

definition close_display :: "bracket \<Rightarrow> ast list \<Rightarrow> ast" where
  "close_display b items =
     (case b of Square \<Rightarrow> ListNode items | Curly \<Rightarrow> SetNode items | Top \<Rightarrow> TupleNode items)"

fun parse :: "(bracket \<times> ast list) list \<Rightarrow> pstate \<Rightarrow> token list \<Rightarrow> exn + ast" where
  "parse stack (AfterItem item is_str) [] =
     (case stack of
        [] \<Rightarrow> Inr item
      | [(Top, items)] \<Rightarrow> Inr (close_display Top (items @ [item]))
      | _ \<Rightarrow> Inl SyntaxError)"
| "parse stack AfterComma [] =
     (case stack of
        [(Top, items)] \<Rightarrow> Inr (close_display Top items)
      | _ \<Rightarrow> Inl SyntaxError)"
| "parse stack st [] = Inl SyntaxError"
| "parse stack (AfterItem item is_str) (t # ts) =
     (case t of
        TComma \<Rightarrow>
          (case stack of
             [] \<Rightarrow> parse [(Top, [item])] AfterComma ts
           | (b, items) # outer \<Rightarrow> parse ((b, items @ [item]) # outer) AfterComma ts)
      | TRBrack \<Rightarrow>
          (case stack of
             (Square, items) # outer \<Rightarrow>
               parse outer (AfterItem (close_display Square (items @ [item])) False) ts
           | _ \<Rightarrow> Inl SyntaxError)
      | TRBrace \<Rightarrow>
          (case stack of
             (Curly, items) # outer \<Rightarrow>
               parse outer (AfterItem (close_display Curly (items @ [item])) False) ts
           | _ \<Rightarrow> Inl SyntaxError)
      | TLBrack \<Rightarrow> Inl NotModelled
      | TStr s \<Rightarrow> (if is_str then Inl NotModelled else Inl SyntaxError)
      | _ \<Rightarrow> Inl SyntaxError)"
| "parse stack st (t # ts) =
     (case t of
        TLBrack \<Rightarrow>
          (if max_depth \<le> length stack then Inl NotModelled
           else parse ((Square, []) # stack) AfterOpen ts)
      | TLBrace \<Rightarrow>
          (if max_depth \<le> length stack then Inl NotModelled
           else parse ((Curly, []) # stack) AfterOpen ts)
      | TName n \<Rightarrow> parse stack (AfterItem (Name n) False) ts
      | TStr s \<Rightarrow> parse stack (AfterItem (Constant (VStr s)) True) ts
      | TConst v \<Rightarrow> parse stack (AfterItem (Constant v) False) ts
      | TRBrack \<Rightarrow>
          (case (st, stack) of
             (Start, _) \<Rightarrow> Inl SyntaxError
           | (_, (Square, items) # outer) \<Rightarrow>
               parse outer (AfterItem (close_display Square items) False) ts
           | _ \<Rightarrow> Inl SyntaxError)
      | TRBrace \<Rightarrow>
          (case (st, stack) of
             (AfterComma, (Curly, items) # outer) \<Rightarrow>
               parse outer (AfterItem (close_display Curly items) False) ts
           | (AfterOpen, (Curly, items) # outer) \<Rightarrow> Inl NotModelled
           | _ \<Rightarrow> Inl SyntaxError)
      | TComma \<Rightarrow> Inl SyntaxError)"

text \<open>
  \<^verbatim>\<open>_convert\<close> of \<^verbatim>\<open>ast.literal_eval\<close>: a name is a malformed node
  (\<^verbatim>\<open>ValueError\<close>); the items of a display are converted from the left; a set takes
  each converted item as it comes and raises \<^verbatim>\<open>TypeError\<close> on an unhashable one.
\<close>

fun hashable :: "pyval \<Rightarrow> bool" where
  "hashable (VList xs) = False"
| "hashable (VTuple xs) = list_all hashable xs"
| "hashable (VOther h t) = h"
| "hashable v = True"

fun convert :: "ast \<Rightarrow> exn + pyval"
  and convert_list :: "ast list \<Rightarrow> exn + pyval list"
  and convert_set :: "ast list \<Rightarrow> exn + unit" where
  "convert (Name n) = Inl ValueError"
| "convert (Constant v) = Inr v"
| "convert (ListNode es) =
     (case convert_list es of Inl e \<Rightarrow> Inl e | Inr vs \<Rightarrow> Inr (VList vs))"
| "convert (TupleNode es) =
     (case convert_list es of Inl e \<Rightarrow> Inl e | Inr vs \<Rightarrow> Inr (VTuple vs))"
| "convert (SetNode es) =
     (case convert_set es of Inl e \<Rightarrow> Inl e | Inr u \<Rightarrow> Inl NotModelled)"
| "convert_list [] = Inr []"
| "convert_list (e # es) =
     (case convert e of
        Inl x \<Rightarrow> Inl x
      | Inr v \<Rightarrow> (case convert_list es of Inl x \<Rightarrow> Inl x | Inr vs \<Rightarrow> Inr (v # vs)))"
| "convert_set [] = Inr ()"
| "convert_set (e # es) =
     (case convert e of
        Inl x \<Rightarrow> Inl x
      | Inr v \<Rightarrow> (if hashable v then convert_set es else Inl TypeError))"

definition literal_eval :: "string \<Rightarrow> exn + pyval" where
  "literal_eval s =
     (case tokenize s of
        Inl e \<Rightarrow> Inl e
      | Inr ts \<Rightarrow> (case parse [] Start ts of Inl e \<Rightarrow> Inl e | Inr a \<Rightarrow> convert a))"

section \<open>Frontmatter values (\<^verbatim>\<open>parse_yaml_value\<close>)\<close>

text \<open>
  \<^verbatim>\<open>except (SyntaxError, ValueError)\<close> catches these classes and their subclasses
  (\<^verbatim>\<open>UnicodeDecodeError\<close> is a \<^verbatim>\<open>ValueError\<close>), and nothing else.
\<close>

fun caught_by_parse_yaml_value :: "exn \<Rightarrow> bool" where
  "caught_by_parse_yaml_value SyntaxError = True"
| "caught_by_parse_yaml_value ValueError = True"
| "caught_by_parse_yaml_value UnicodeDecodeError = True"
| "caught_by_parse_yaml_value e = False"

definition parse_yaml_value :: "(string \<Rightarrow> exn + pyval) \<Rightarrow> string \<Rightarrow> exn + pyval" where
  "parse_yaml_value le raw_value =
     (let value = strip raw_value in
      if value = [] then Inr (VStr [])
      else if startswith value ''['' \<and> endswith value '']'' then
        (case le value of
           Inr literal \<Rightarrow> Inr literal
         | Inl e \<Rightarrow> (if caught_by_parse_yaml_value e then Inr (VStr value) else Inl e))
      else if (startswith value [DQ] \<and> endswith value [DQ]) \<or>
              (startswith value [SQ] \<and> endswith value [SQ])
      then Inr (VStr (butlast (tl value)))
      else Inr (VStr value))"

section \<open>Fenced blocks and frontmatter\<close>

text \<open>
  The first index at or after \<open>i\<close> whose line satisfies \<open>P\<close>: the
  \<^verbatim>\<open>for index ...: if P(lines[index]): ...; break\<close> loops of the source, \<open>ls\<close> being
  the lines from index \<open>i\<close> on.
\<close>

fun find_index_from :: "(string \<Rightarrow> bool) \<Rightarrow> nat \<Rightarrow> string list \<Rightarrow> nat option" where
  "find_index_from P i [] = None"
| "find_index_from P i (l # ls) = (if P l then Some i else find_index_from P (Suc i) ls)"

text \<open>
  \<^verbatim>\<open>extract_chatagent_block\<close> and \<^verbatim>\<open>extract_prompt_block\<close> differ in the marker and
  in the warning only; \<open>extract_block\<close> is their common text.
\<close>

definition extract_block :: "string \<Rightarrow> string \<Rightarrow> string \<Rightarrow> string \<times> string list" where
  "extract_block marker warning text =
     (let lines = splitlines text in
      case find_index_from (\<lambda>line. startswith (strip line) marker) 0 lines of
        None \<Rightarrow> (text, [])
      | Some start_index \<Rightarrow>
          (case find_index_from (\<lambda>line. strip line = ''```'') (start_index + 1)
                  (drop (start_index + 1) lines) of
             None \<Rightarrow> (text, [warning])
           | Some end_index \<Rightarrow>
               (join [LF] (take (end_index - (start_index + 1)) (drop (start_index + 1) lines)),
                [])))"

definition extract_chatagent_block :: "string \<Rightarrow> string \<times> string list" where
  "extract_chatagent_block text =
     extract_block ''```chatagent'' ''Chatagent block start found without closing ```.'' text"

definition extract_prompt_block :: "string \<Rightarrow> string \<times> string list" where
  "extract_prompt_block text =
     extract_block ''```prompt'' ''Prompt block start found without closing ```.'' text"

type_synonym metadata = "string \<rightharpoonup> pyval"

text \<open>
  The loop over the frontmatter lines of \<^verbatim>\<open>parse_frontmatter\<close>, with the dictionary
  and the warnings as its state. \<^verbatim>\<open>line.split(":", 1)\<close> cuts at the first colon.
\<close>

fun frontmatter_loop ::
  "(string \<Rightarrow> exn + pyval) \<Rightarrow> string list \<Rightarrow> metadata \<times> string list \<Rightarrow>
     exn + metadata \<times> string list" where
  "frontmatter_loop le [] st = Inr st"
| "frontmatter_loop le (line # rest) (md, warnings) =
     (if strip line = [] \<or> startswith (strip line) ''#'' then
        frontmatter_loop le rest (md, warnings)
      else if CHR '':'' \<notin> set line then
        frontmatter_loop le rest (md, warnings @ [''Unrecognized frontmatter line: '' @ line])
      else
        (case parse_yaml_value le (tl (dropWhile (\<lambda>c. c \<noteq> CHR '':'') line)) of
           Inl e \<Rightarrow> Inl e
         | Inr v \<Rightarrow>
             frontmatter_loop le rest
               (md(strip (takeWhile (\<lambda>c. c \<noteq> CHR '':'') line) \<mapsto> v), warnings)))"

definition unclosed_frontmatter :: string where
  "unclosed_frontmatter =
     ''Frontmatter start found without closing '' @ [SQ] @ ''---'' @ [SQ] @ ''.''"

definition parse_frontmatter ::
  "(string \<Rightarrow> exn + pyval) \<Rightarrow> string \<Rightarrow> exn + metadata \<times> string \<times> string list" where
  "parse_frontmatter le text =
     (let lines = splitlines text in
      if lines = [] \<or> strip (hd lines) \<noteq> ''---'' then Inr (Map.empty, text, [])
      else
        (case find_index_from (\<lambda>line. strip line = ''---'') 1 (drop 1 lines) of
           None \<Rightarrow> Inr (Map.empty, text, [unclosed_frontmatter])
         | Some end_index \<Rightarrow>
             (case frontmatter_loop le (take (end_index - 1) (drop 1 lines)) (Map.empty, []) of
                Inl e \<Rightarrow> Inl e
              | Inr (md, warnings) \<Rightarrow>
                  Inr (md, join [LF] (drop (end_index + 1) lines), warnings))))"

section \<open>Globs and quoting (\<^verbatim>\<open>instructions2rules.py\<close>)\<close>

text \<open>
  \<^verbatim>\<open>str(value)\<close>: a string is itself; a list or a tuple prints the \<^verbatim>\<open>repr\<close> of its
  items (a tuple of one item with a comma after it); an integer prints in decimal.
  \<^verbatim>\<open>repr\<close> of a string takes single quotes unless the string has a single quote
  and no double quote, and escapes the quote, the backslash and what is not
  printable.
\<close>

function digits :: "nat \<Rightarrow> string" where
  "digits n =
     (if n < 10 then [''0123456789'' ! n]
      else digits (n div 10) @ [''0123456789'' ! (n mod 10)])"
  by pat_completeness auto
termination
  by (relation "measure id") auto

declare digits.simps [simp del]

definition int_str :: "int \<Rightarrow> string" where
  "int_str i = (if i < 0 then CHR ''-'' # digits (nat (- i)) else digits (nat i))"

definition hex_digit :: "nat \<Rightarrow> char" where
  "hex_digit n = ''0123456789abcdef'' ! (n mod 16)"

definition is_printable :: "char \<Rightarrow> bool" where
  "is_printable c \<longleftrightarrow>
     (32 \<le> (of_char c :: nat) \<and> (of_char c :: nat) < 127) \<or>
     (161 \<le> (of_char c :: nat) \<and> (of_char c :: nat) \<noteq> 173)"

definition repr_char :: "char \<Rightarrow> char \<Rightarrow> string" where
  "repr_char quote c =
     (if c = quote \<or> c = BSL then [BSL, c]
      else if c = CHR 0x09 then [BSL, CHR ''t'']
      else if c = LF then [BSL, CHR ''n'']
      else if c = CR then [BSL, CHR ''r'']
      else if is_printable c then [c]
      else [BSL, CHR ''x'', hex_digit (of_char c div 16), hex_digit (of_char c)])"

definition repr_str :: "string \<Rightarrow> string" where
  "repr_str s =
     (let quote = (if SQ \<in> set s \<and> DQ \<notin> set s then DQ else SQ)
      in quote # concat (map (repr_char quote) s) @ [quote])"

fun py_repr :: "pyval \<Rightarrow> string" where
  "py_repr (VStr s) = repr_str s"
| "py_repr (VBool b) = (if b then ''True'' else ''False'')"
| "py_repr VNone = ''None''"
| "py_repr (VInt i) = int_str i"
| "py_repr (VList xs) = ''['' @ join '', '' (map py_repr xs) @ '']''"
| "py_repr (VTuple xs) =
     ''('' @ join '', '' (map py_repr xs) @ (if length xs = 1 then '','' else []) @ '')''"
| "py_repr (VOther h t) = t"

fun py_str :: "pyval \<Rightarrow> string" where
  "py_str (VStr s) = s"
| "py_str v = py_repr v"

text \<open>\<^verbatim>\<open>s.split(",")\<close>: the parts between the commas, the empty ones too.\<close>

fun split_from :: "string \<Rightarrow> char \<Rightarrow> string \<Rightarrow> string list" where
  "split_from cur sep [] = [cur]"
| "split_from cur sep (c # cs) =
     (if c = sep then cur # split_from [] sep cs else split_from (cur @ [c]) sep cs)"

definition split :: "char \<Rightarrow> string \<Rightarrow> string list" where
  "split sep s = split_from [] sep s"

text \<open>\<open>apply_to\<close> is \<^verbatim>\<open>metadata.get("applyTo")\<close>: \<open>None\<close> when the key is absent.\<close>

fun normalize_globs :: "pyval option \<Rightarrow> string list" where
  "normalize_globs None = []"
| "normalize_globs (Some VNone) = []"
| "normalize_globs (Some (VList items)) =
     filter (\<lambda>item. item \<noteq> []) (map (\<lambda>item. strip (py_str item)) items)"
| "normalize_globs (Some v) =
     filter (\<lambda>item. item \<noteq> []) (map strip (split (CHR '','') (py_str v)))"

text \<open>\<^verbatim>\<open>any(glob in {"*", "**"} for glob in globs)\<close> of \<^verbatim>\<open>convert_file\<close>.\<close>

definition always_apply_of :: "string list \<Rightarrow> bool" where
  "always_apply_of globs = list_ex (\<lambda>glob. glob = ''*'' \<or> glob = ''**'') globs"

definition yaml_quote :: "string \<Rightarrow> string" where
  "yaml_quote v = [DQ] @ replace [DQ] [BSL, DQ] (replace [BSL] [BSL, BSL] v) @ [DQ]"

section \<open>The emitters\<close>

text \<open>\<^verbatim>\<open>build_rule_content\<close> of \<^verbatim>\<open>instructions2rules.py\<close>.\<close>

definition build_rule_content :: "string \<Rightarrow> string list \<Rightarrow> bool \<Rightarrow> string \<Rightarrow> string" where
  "build_rule_content description globs always_apply body =
     (let normalized_description = normalize_text description;
          normalized_body = normalize_text body;
          lines =
            [''---'', ''description: '' @ yaml_quote normalized_description] @
            (if globs \<noteq> [] then ''globs:'' # map (\<lambda>glob. ''  - '' @ yaml_quote glob) globs
             else [''globs: []'']) @
            [''alwaysApply: '' @ (if always_apply then ''true'' else ''false''), ''---''];
          body_text = (if startswith normalized_body [LF] then tl normalized_body
                       else normalized_body)
      in if body_text \<noteq> [] then join [LF] lines @ [LF] @ body_text @ [LF]
         else join [LF] lines @ [LF])"

text \<open>\<^verbatim>\<open>build_rule_content\<close> of \<^verbatim>\<open>agents2rules.py\<close>: no globs, never always applied.\<close>

definition build_rule_content_agents :: "string \<Rightarrow> string \<Rightarrow> string" where
  "build_rule_content_agents description body =
     (let normalized_description = normalize_text description;
          normalized_body = normalize_text body;
          lines =
            [''---'', ''description: '' @ yaml_quote normalized_description,
             ''globs: []'', ''alwaysApply: false'', ''---''];
          body_text = (if startswith normalized_body [LF] then tl normalized_body
                       else normalized_body)
      in if body_text \<noteq> [] then join [LF] lines @ [LF] @ body_text @ [LF]
         else join [LF] lines @ [LF])"

text \<open>
  \<^verbatim>\<open>build_command_content\<close> of \<^verbatim>\<open>prompts2commands.py\<close>. \<^verbatim>\<open>str.title\<close> maps some
  characters below 256 to characters above; it is the parameter \<open>title\<close>.
  \<open>ascii_title\<close> is \<^verbatim>\<open>str.title\<close> on ASCII text: a letter after a letter is made
  lower case, a letter after anything else upper case.
\<close>

definition build_command_content ::
  "(string \<Rightarrow> string) \<Rightarrow> string option \<Rightarrow> string \<Rightarrow> string \<Rightarrow> string" where
  "build_command_content title description body filename_stem =
     (let normalized_body = normalize_text body;
          normalized_description =
            (case description of
               None \<Rightarrow> []
             | Some d \<Rightarrow> (if d \<noteq> [] then normalize_text d else []));
          parts =
            [''# '' @ title (replace ''_'' '' '' (replace ''-'' '' '' filename_stem))] @
            (if normalized_description \<noteq> [] then [normalized_description] else []) @
            [[], ''Use any text after the command as additional context.'', []] @
            (if normalized_body \<noteq> [] then [normalized_body] else [])
      in rstrip (join [LF] parts) @ [LF])"

definition ascii_upper :: "char \<Rightarrow> char" where
  "ascii_upper c =
     (if c \<in> set ''abcdefghijklmnopqrstuvwxyz'' then char_of (of_char c - (32::nat)) else c)"

definition ascii_lower :: "char \<Rightarrow> char" where
  "ascii_lower c =
     (if c \<in> set ''ABCDEFGHIJKLMNOPQRSTUVWXYZ'' then char_of (of_char c + (32::nat)) else c)"

fun ascii_title_from :: "bool \<Rightarrow> string \<Rightarrow> string" where
  "ascii_title_from previous_is_cased [] = []"
| "ascii_title_from previous_is_cased (c # cs) =
     (if c \<in> set ''abcdefghijklmnopqrstuvwxyzABCDEFGHIJKLMNOPQRSTUVWXYZ'' then
        (if previous_is_cased then ascii_lower c else ascii_upper c) # ascii_title_from True cs
      else c # ascii_title_from False cs)"

definition ascii_title :: "string \<Rightarrow> string" where
  "ascii_title s = ascii_title_from False s"

section \<open>Files and conversion results\<close>

text \<open>
  A \<^verbatim>\<open>Path\<close> is its directory and its last component. \<open>stem\<close> is \<^verbatim>\<open>Path.stem\<close>: the
  name up to its last dot, when that dot is neither the first nor the last character.
\<close>

record pypath =
  parent :: string
  name :: string

definition stem :: "pypath \<Rightarrow> string" where
  "stem p =
     (if CHR ''.'' \<in> set (name p) then
        (let i = length (name p) - 1 - length (takeWhile (\<lambda>c. c \<noteq> CHR ''.'') (rev (name p)))
         in if 0 < i \<and> i < length (name p) - 1 then take i (name p) else name p)
      else name p)"

text \<open>
  What the file system holds at a path: a file that reads as a text; a file whose bytes
  are not UTF-8; a file that cannot be opened (with the message of the \<^verbatim>\<open>OSError\<close>); no
  file, in a place where none can be created (with the message); or, \<open>None\<close>, no file.
\<close>

datatype fnode = Text string | Undecodable | Denied string | Blocked string

type_synonym filesystem = "pypath \<Rightarrow> fnode option"

definition read_text :: "filesystem \<Rightarrow> pypath \<Rightarrow> exn + string" where
  "read_text fs p =
     (case fs p of
        Some (Text t) \<Rightarrow> Inr t
      | Some Undecodable \<Rightarrow> Inl UnicodeDecodeError
      | Some (Denied m) \<Rightarrow> Inl (OSError m)
      | Some (Blocked m) \<Rightarrow> Inl (OSError ''No such file or directory'')
      | None \<Rightarrow> Inl (OSError ''No such file or directory''))"

definition write_text :: "filesystem \<Rightarrow> pypath \<Rightarrow> string \<Rightarrow> exn + filesystem" where
  "write_text fs p content =
     (case fs p of
        Some (Denied m) \<Rightarrow> Inl (OSError m)
      | Some (Blocked m) \<Rightarrow> Inl (OSError m)
      | _ \<Rightarrow> Inr (fs(p \<mapsto> Text content)))"

definition is_file :: "filesystem \<Rightarrow> pypath \<Rightarrow> bool" where
  "is_file fs p =
     (case fs p of None \<Rightarrow> False | Some (Blocked m) \<Rightarrow> False | Some n \<Rightarrow> True)"

record ConversionResult =
  source :: pypath
  destination :: "pypath option"
  success :: bool
  warnings :: "string list"
  error :: "string option"

text \<open>\<^verbatim>\<open>isinstance(description, str) and description.strip()\<close>.\<close>

fun usable_string :: "pyval option \<Rightarrow> string option" where
  "usable_string (Some (VStr s)) = (if strip s \<noteq> [] then Some s else None)"
| "usable_string v = None"

section \<open>\<^verbatim>\<open>convert_file\<close>\<close>

text \<open>
  Each \<^verbatim>\<open>convert_file\<close> returns its result and the file system after it, or the
  exception that leaves it: the two \<^verbatim>\<open>try\<close> blocks catch \<^verbatim>\<open>OSError\<close> only, around
  \<^verbatim>\<open>read_text\<close> and around \<^verbatim>\<open>write_text\<close>.
\<close>

definition convert_file_agents ::
  "(string \<Rightarrow> exn + pyval) \<Rightarrow> string \<Rightarrow> filesystem \<Rightarrow> pypath \<Rightarrow>
     exn + ConversionResult \<times> filesystem" where
  "convert_file_agents le destination_dir fs source_path =
     (case read_text fs source_path of
        Inl (OSError m) \<Rightarrow>
          Inr (\<lparr>source = source_path, destination = None, success = False,
                warnings = [], error = Some m\<rparr>, fs)
      | Inl e \<Rightarrow> Inl e
      | Inr text \<Rightarrow>
          (case parse_frontmatter le (fst (extract_chatagent_block text)) of
             Inl e \<Rightarrow> Inl e
           | Inr (md, body, parse_warnings) \<Rightarrow>
               (let ws = snd (extract_chatagent_block text) @ parse_warnings;
                    description =
                      (case usable_string (md ''description'') of
                         Some d \<Rightarrow> d
                       | None \<Rightarrow>
                           (case usable_string (md ''name'') of
                              Some d \<Rightarrow> d
                            | None \<Rightarrow> replace ''.agent'' [] (stem source_path)));
                    rule_content = build_rule_content_agents description body;
                    destination_path =
                      \<lparr>parent = destination_dir,
                       name = replace ''.agent.md'' ''.mdc'' (name source_path)\<rparr>
                in case write_text fs destination_path rule_content of
                     Inl (OSError m) \<Rightarrow>
                       Inr (\<lparr>source = source_path, destination = Some destination_path,
                             success = False, warnings = ws, error = Some m\<rparr>, fs)
                   | Inl e \<Rightarrow> Inl e
                   | Inr fs' \<Rightarrow>
                       Inr (\<lparr>source = source_path, destination = Some destination_path,
                             success = True, warnings = ws, error = None\<rparr>, fs'))))"

definition convert_file_instructions ::
  "(string \<Rightarrow> exn + pyval) \<Rightarrow> string \<Rightarrow> filesystem \<Rightarrow> pypath \<Rightarrow>
     exn + ConversionResult \<times> filesystem" where
  "convert_file_instructions le destination_dir fs source_path =
     (case read_text fs source_path of
        Inl (OSError m) \<Rightarrow>
          Inr (\<lparr>source = source_path, destination = None, success = False,
                warnings = [], error = Some m\<rparr>, fs)
      | Inl e \<Rightarrow> Inl e
      | Inr text \<Rightarrow>
          (case parse_frontmatter le text of
             Inl e \<Rightarrow> Inl e
           | Inr (md, body, parse_warnings) \<Rightarrow>
               (let description =
                      (case usable_string (md ''description'') of
                         Some d \<Rightarrow> d
                       | None \<Rightarrow> replace ''.instructions'' [] (stem source_path));
                    globs = normalize_globs (md ''applyTo'');
                    always_apply = always_apply_of globs;
                    rule_content = build_rule_content description globs always_apply body;
                    destination_path =
                      \<lparr>parent = destination_dir,
                       name = replace ''.instructions.md'' ''.mdc'' (name source_path)\<rparr>
                in case write_text fs destination_path rule_content of
                     Inl (OSError m) \<Rightarrow>
                       Inr (\<lparr>source = source_path, destination = Some destination_path,
                             success = False, warnings = parse_warnings, error = Some m\<rparr>, fs)
                   | Inl e \<Rightarrow> Inl e
                   | Inr fs' \<Rightarrow>
                       Inr (\<lparr>source = source_path, destination = Some destination_path,
                             success = True, warnings = parse_warnings, error = None\<rparr>, fs'))))"

text \<open>
  In \<^verbatim>\<open>prompts2commands.py\<close> a description that is there and is no string is warned
  about and set to \<^verbatim>\<open>None\<close>.
\<close>

fun is_string :: "pyval \<Rightarrow> bool" where
  "is_string (VStr s) = True"
| "is_string v = False"

definition description_warning :: string where
  "description_warning = ''Description is not a string; using filename instead.''"

definition convert_file_prompts ::
  "(string \<Rightarrow> exn + pyval) \<Rightarrow> (string \<Rightarrow> string) \<Rightarrow> string \<Rightarrow> filesystem \<Rightarrow> pypath \<Rightarrow>
     exn + ConversionResult \<times> filesystem" where
  "convert_file_prompts le title destination_dir fs source_path =
     (case read_text fs source_path of
        Inl (OSError m) \<Rightarrow>
          Inr (\<lparr>source = source_path, destination = None, success = False,
                warnings = [], error = Some m\<rparr>, fs)
      | Inl e \<Rightarrow> Inl e
      | Inr text \<Rightarrow>
          (case parse_frontmatter le (fst (extract_prompt_block text)) of
             Inl e \<Rightarrow> Inl e
           | Inr (md, body, parse_warnings) \<Rightarrow>
               (let ws = snd (extract_prompt_block text) @ parse_warnings @
                      (case md ''description'' of
                         None \<Rightarrow> []
                       | Some VNone \<Rightarrow> []
                       | Some v \<Rightarrow> (if is_string v then [] else [description_warning]));
                    description =
                      (case md ''description'' of Some (VStr d) \<Rightarrow> Some d | _ \<Rightarrow> None);
                    destination_path =
                      \<lparr>parent = destination_dir,
                       name = replace ''.prompt.md'' ''.md'' (name source_path)\<rparr>;
                    filename_stem = replace ''.prompt'' [] (stem source_path);
                    command_content = build_command_content title description body filename_stem
                in case write_text fs destination_path command_content of
                     Inl (OSError m) \<Rightarrow>
                       Inr (\<lparr>source = source_path, destination = Some destination_path,
                             success = False, warnings = ws, error = Some m\<rparr>, fs)
                   | Inl e \<Rightarrow> Inl e
                   | Inr fs' \<Rightarrow>
                       Inr (\<lparr>source = source_path, destination = Some destination_path,
                             success = True, warnings = ws, error = None\<rparr>, fs'))))"

section \<open>\<^verbatim>\<open>main\<close>\<close>

text \<open>
  The three \<^verbatim>\<open>main\<close> functions are the same text around their own \<^verbatim>\<open>convert_file\<close>
  and file suffix. \<open>arg\<close> is the resolved path of the command line (\<open>None\<close> without
  one), \<open>found\<close> the sorted list that \<^verbatim>\<open>collect_..._files\<close> returns. The model starts
  after \<^verbatim>\<open>destination_dir.mkdir\<close> has returned, and leaves the printed lines out; the
  counters of the summary line are the state of the loop.
\<close>

fun batch_loop ::
  "(filesystem \<Rightarrow> pypath \<Rightarrow> exn + ConversionResult \<times> filesystem) \<Rightarrow>
     filesystem \<Rightarrow> pypath list \<Rightarrow> nat \<times> nat \<times> nat \<Rightarrow> exn + (nat \<times> nat \<times> nat) \<times> filesystem" where
  "batch_loop conv fs [] counters = Inr (counters, fs)"
| "batch_loop conv fs (src # rest) (converted, failed, warning_count) =
     (case conv fs src of
        Inl e \<Rightarrow> Inl e
      | Inr (result, fs') \<Rightarrow>
          batch_loop conv fs' rest
            (if success result then converted + 1 else converted,
             if success result then failed else failed + 1,
             warning_count + length (warnings result)))"

definition run_batch ::
  "(filesystem \<Rightarrow> pypath \<Rightarrow> exn + ConversionResult \<times> filesystem) \<Rightarrow>
     filesystem \<Rightarrow> pypath list \<Rightarrow> exn + int \<times> filesystem" where
  "run_batch conv fs sources =
     (if sources = [] then Inr (0, fs)
      else
        (case batch_loop conv fs sources (0, 0, 0) of
           Inl e \<Rightarrow> Inl e
         | Inr ((converted, failed, warning_count), fs') \<Rightarrow>
             Inr (if failed \<noteq> 0 then 1 else 0, fs')))"

definition main_with ::
  "string \<Rightarrow> (filesystem \<Rightarrow> pypath \<Rightarrow> exn + ConversionResult \<times> filesystem) \<Rightarrow>
     filesystem \<Rightarrow> pypath option \<Rightarrow> pypath list \<Rightarrow> exn + int \<times> filesystem" where
  "main_with file_suffix conv fs arg found =
     (case arg of
        Some source_path \<Rightarrow>
          (if \<not> is_file fs source_path then Inr (1, fs)
           else if \<not> endswith (name source_path) file_suffix then Inr (1, fs)
           else run_batch conv fs [source_path])
      | None \<Rightarrow> run_batch conv fs found)"

definition main_agents ::
  "(string \<Rightarrow> exn + pyval) \<Rightarrow> string \<Rightarrow> filesystem \<Rightarrow> pypath option \<Rightarrow> pypath list \<Rightarrow>
     exn + int \<times> filesystem" where
  "main_agents le destination_dir =
     main_with ''.agent.md'' (convert_file_agents le destination_dir)"

definition main_instructions ::
  "(string \<Rightarrow> exn + pyval) \<Rightarrow> string \<Rightarrow> filesystem \<Rightarrow> pypath option \<Rightarrow> pypath list \<Rightarrow>
     exn + int \<times> filesystem" where
  "main_instructions le destination_dir =
     main_with ''.instructions.md'' (convert_file_instructions le destination_dir)"

definition main_prompts ::
  "(string \<Rightarrow> exn + pyval) \<Rightarrow> (string \<Rightarrow> string) \<Rightarrow> string \<Rightarrow> filesystem \<Rightarrow>
     pypath option \<Rightarrow> pypath list \<Rightarrow> exn + int \<times> filesystem" where
  "main_prompts le title destination_dir =
     main_with ''.prompt.md'' (convert_file_prompts le title destination_dir)"

text \<open>
  The results the loop of \<^verbatim>\<open>main\<close> goes through, in order: what \<^verbatim>\<open>convert_file\<close>
  returned for each source, up to the first one that raised.
\<close>

fun results_of ::
  "(filesystem \<Rightarrow> pypath \<Rightarrow> exn + ConversionResult \<times> filesystem) \<Rightarrow>
     filesystem \<Rightarrow> pypath list \<Rightarrow> ConversionResult list" where
  "results_of conv fs [] = []"
| "results_of conv fs (src # rest) =
     (case conv fs src of
        Inl e \<Rightarrow> []
      | Inr (result, fs') \<Rightarrow> result # results_of conv fs' rest)"

section \<open>Notions used in the proofs\<close>

text \<open>
  \<open>apart q r\<close>: no non-empty tail of \<open>q\<close> starts \<open>r\<close> or is started by \<open>r\<close>, and the first
  character of \<open>q\<close> is not in \<open>r\<close>. Then an occurrence of \<open>q\<close> cannot share a character
  with an inserted copy of \<open>r\<close>.
\<close>

definition apart :: "string \<Rightarrow> string \<Rightarrow> bool" where
  "apart q r \<longleftrightarrow>
     q \<noteq> [] \<and> hd q \<notin> set r \<and>
     list_all (\<lambda>t. t = [] \<or> (\<not> prefix t r \<and> \<not> prefix r t)) (suffixes q)"

text \<open>
  A line without line boundary; a text whose only line boundaries are LF; and a line
  terminator: one line boundary, or CR LF.
\<close>

definition no_linebreak :: "string \<Rightarrow> bool" where
  "no_linebreak s = list_all (\<lambda>c. \<not> is_linebreak c) s"


fun line_terminator :: "string \<Rightarrow> bool" where
  "line_terminator [c] = is_linebreak c"
| "line_terminator [c, d] = (c = CR \<and> d = LF)"
| "line_terminator t = False"

text \<open>The shapes \<^verbatim>\<open>parse_yaml_value\<close> tells apart in a trimmed value.\<close>

definition bracketed :: "string \<Rightarrow> bool" where
  "bracketed v \<longleftrightarrow> startswith v ''['' \<and> endswith v '']''"

definition quoted :: "string \<Rightarrow> bool" where
  "quoted v \<longleftrightarrow>
     (startswith v [DQ] \<and> endswith v [DQ]) \<or> (startswith v [SQ] \<and> endswith v [SQ])"

text \<open>
  The rule file as the specification words it: a value quoted with a backslash before
  every backslash and every double quote; the \<^verbatim>\<open>globs\<close> block; a body without one
  leading newline.
\<close>

definition escaped :: "string \<Rightarrow> string" where
  "escaped v = concat (map (\<lambda>c. if c = BSL \<or> c = DQ then [BSL, c] else [c]) v)"

definition globs_block :: "string list \<Rightarrow> string" where
  "globs_block globs =
     (if globs = [] then ''globs: []'' @ [LF]
      else ''globs:'' @ [LF] @
           concat (map (\<lambda>glob. ''  - '' @ [DQ] @ escaped glob @ [DQ] @ [LF]) globs))"

fun strip_leading_newline :: "string \<Rightarrow> string" where
  "strip_leading_newline [] = []"
| "strip_leading_newline (c # cs) = (if c = LF then cs else c # cs)"

text \<open>
  The candidate files of a run of \<^verbatim>\<open>main\<close>, and the command lines that pass its two
  checks (the file is there, and its name has the suffix).
\<close>

definition candidates :: "pypath option \<Rightarrow> pypath list \<Rightarrow> pypath list" where
  "candidates arg found = (case arg of None \<Rightarrow> found | Some source_path \<Rightarrow> [source_path])"

definition accepted_argument :: "string \<Rightarrow> filesystem \<Rightarrow> pypath option \<Rightarrow> bool" where
  "accepted_argument file_suffix fs arg =
     (case arg of
        None \<Rightarrow> True
      | Some source_path \<Rightarrow> is_file fs source_path \<and> endswith (name source_path) file_suffix)"




section \<open>Facts about \<open>replace\<close>\<close>

lemma replace_Nil: "old \<noteq> [] \<Longrightarrow> replace old new [] = []"
  by (simp add: replace.simps)

lemma replace_Cons:
  "old \<noteq> [] \<Longrightarrow> replace old new (c # cs) =
     (if prefix old (c # cs) then new @ replace old new (drop (length old) (c # cs))
      else c # replace old new cs)"
  by (subst replace.simps) simp

lemma apart_suffix:
  assumes "apart q r" "suffix t q" "t \<noteq> []"
  shows "\<not> prefix t r" "\<not> prefix r t"
  using assms by (auto simp: apart_def list_all_iff)

lemma replace_keeps_prefix:
  assumes old: "old \<noteq> []" and ap: "apart q new"
  shows "suffix t q \<Longrightarrow> t \<noteq> [] \<Longrightarrow> prefix t (replace old new s) \<Longrightarrow> prefix t s"
proof (induction s arbitrary: t)
  case Nil
  then show ?case using old by (simp add: replace_Nil)
next
  case (Cons c cs)
  show ?case
  proof (cases "prefix old (c # cs)")
    case True
    with Cons.prems(3) old
    have "prefix t (new @ replace old new (drop (length old) (c # cs)))"
      by (simp add: replace_Cons)
    then have "prefix t new \<or> prefix new t"
      by (auto simp: prefix_append)
    with apart_suffix [OF ap Cons.prems(1,2)] show ?thesis by blast
  next
    case False
    with Cons.prems(3) old have p: "prefix t (c # replace old new cs)"
      by (simp add: replace_Cons)
    from Cons.prems(2) obtain x u where t: "t = x # u" by (cases t) auto
    with p have x: "x = c" and pu: "prefix u (replace old new cs)" by auto
    show ?thesis
    proof (cases "u = []")
      case True
      with t x show ?thesis by simp
    next
      case False
      have "suffix u t" using t by (simp add: suffix_ConsI)
      with Cons.prems(1) have "suffix u q" by (meson suffix_order.trans)
      from Cons.IH [OF this False pu] t x show ?thesis by simp
    qed
  qed
qed

lemma sublist_after_insert:
  assumes "q \<noteq> []" "hd q \<notin> set r" "sublist q (r @ t)"
  shows "sublist q t"
  using assms
proof (induction r)
  case Nil
  then show ?case by simp
next
  case (Cons x r)
  from Cons.prems(3) have "prefix q (x # r @ t) \<or> sublist q (r @ t)"
    by (simp add: sublist_Cons_right)
  moreover have "\<not> prefix q (x # r @ t)"
    using Cons.prems(1,2) by (cases q) auto
  ultimately show ?case using Cons by auto
qed

lemma sublist_drop: "sublist q (drop n s) \<Longrightarrow> sublist q s"
  by (metis append_take_drop_id sublist_append_leftI sublist_order.order_trans)

lemma replace_no_new_occurrence:
  assumes old: "old \<noteq> []" and ap: "apart q new"
  shows "sublist q (replace old new s) \<Longrightarrow> sublist q s"
proof (induction s rule: length_induct)
  case (1 s)
  from ap have q: "q \<noteq> []" and hd: "hd q \<notin> set new" by (auto simp: apart_def)
  show ?case
  proof (cases s)
    case Nil
    with "1.prems" old show ?thesis by (simp add: replace_Nil)
  next
    case (Cons c cs)
    show ?thesis
    proof (cases "prefix old (c # cs)")
      case True
      with "1.prems" old Cons
      have "sublist q (new @ replace old new (drop (length old) s))"
        by (simp add: replace_Cons)
      then have "sublist q (replace old new (drop (length old) s))"
        by (rule sublist_after_insert [OF q hd])
      moreover have "length (drop (length old) s) < length s"
        using old Cons by simp
      ultimately have "sublist q (drop (length old) s)"
        using "1.IH" by blast
      then show ?thesis by (rule sublist_drop)
    next
      case False
      with "1.prems" old Cons have "sublist q (c # replace old new cs)"
        by (simp add: replace_Cons)
      then consider "prefix q (c # replace old new cs)" | "sublist q (replace old new cs)"
        by (auto simp: sublist_Cons_right)
      then show ?thesis
      proof cases
        case 1
        with False old Cons have "prefix q (replace old new s)"
          by (simp add: replace_Cons)
        from replace_keeps_prefix [OF old ap _ q this] have "prefix q s" by simp
        then show ?thesis by (rule prefix_imp_sublist)
      next
        case 2
        with "1.IH" Cons have "sublist q cs" by simp
        with Cons show ?thesis by (simp add: sublist_Cons_right)
      qed
    qed
  qed
qed

lemma replace_removes:
  assumes old: "old \<noteq> []" and ap: "apart old new"
  shows "\<not> sublist old (replace old new s)"
proof (induction s rule: length_induct)
  case (1 s)
  from ap have hd: "hd old \<notin> set new" by (auto simp: apart_def)
  show ?case
  proof (cases s)
    case Nil
    with old show ?thesis by (simp add: replace_Nil)
  next
    case (Cons c cs)
    show ?thesis
    proof (cases "prefix old (c # cs)")
      case True
      have "length (drop (length old) s) < length s" using old Cons by simp
      with "1.IH" have "\<not> sublist old (replace old new (drop (length old) s))" by blast
      with sublist_after_insert [OF old hd]
      have "\<not> sublist old (new @ replace old new (drop (length old) s))" by blast
      with True old Cons show ?thesis by (simp add: replace_Cons)
    next
      case False
      have r: "replace old new s = c # replace old new cs"
        using False old Cons by (simp add: replace_Cons)
      have "\<not> prefix old (replace old new s)"
      proof
        assume "prefix old (replace old new s)"
        from replace_keeps_prefix [OF old ap _ old this] have "prefix old s" by simp
        with False Cons show False by simp
      qed
      moreover have "\<not> sublist old (replace old new cs)" using "1.IH" Cons by simp
      ultimately show ?thesis using r by (simp add: sublist_Cons_right)
    qed
  qed
qed

lemma replace_absent:
  assumes "old \<noteq> []"
  shows "\<not> sublist old s \<Longrightarrow> replace old new s = s"
proof (induction s)
  case Nil
  then show ?case using assms by (simp add: replace_Nil)
next
  case (Cons c cs)
  then have "\<not> prefix old (c # cs)" "\<not> sublist old cs"
    by (auto simp: sublist_Cons_right)
  with Cons.IH assms show ?case by (simp add: replace_Cons)
qed

section \<open>Product names: one pass is enough\<close>

lemma apart_patterns:
  "apart ''GitHub Copilot'' ''Cursor AI''"
  "apart ''GitHub Copilot'' ''Cursor''"
  "apart ''Visual Studio Code'' ''Cursor''"
  "apart ''VS Code'' ''Cursor''"
  "apart ''VSCode'' ''Cursor''"
  by code_simp+

text \<open>No source product name is left in a normalized text.\<close>

lemma normalize_text_clean:
  "\<not> sublist ''GitHub Copilot'' (normalize_text s)"
  "\<not> sublist ''Visual Studio Code'' (normalize_text s)"
  "\<not> sublist ''VS Code'' (normalize_text s)"
  "\<not> sublist ''VSCode'' (normalize_text s)"
  unfolding normalize_text_def
  using replace_removes replace_no_new_occurrence apart_patterns
  by (metis list.distinct(1))+

text \<open>
  Claim C4. Brand replacement is a fixed point after one pass: for every text,
  normalizing the product names (GitHub Copilot to Cursor AI; Visual Studio Code,
  VS Code and VSCode to Cursor) twice gives what normalizing once gives; on a
  normalized text the four replacements change nothing.
\<close>

theorem normalize_text_idempotent:
  "normalize_text (normalize_text s) = normalize_text s"
proof -
  let ?t = "normalize_text s"
  have 1: "replace ''GitHub Copilot'' ''Cursor AI'' ?t = ?t"
    by (rule replace_absent) (simp_all add: normalize_text_clean)
  have 2: "replace ''Visual Studio Code'' ''Cursor'' ?t = ?t"
    by (rule replace_absent) (simp_all add: normalize_text_clean)
  have 3: "replace ''VS Code'' ''Cursor'' ?t = ?t"
    by (rule replace_absent) (simp_all add: normalize_text_clean)
  have 4: "replace ''VSCode'' ''Cursor'' ?t = ?t"
    by (rule replace_absent) (simp_all add: normalize_text_clean)
  show ?thesis
    by (subst (1) normalize_text_def) (simp only: 1 2 3 4)
qed

section \<open>Lines, fences and frontmatter\<close>


lemma find_index_from_append:
  assumes "\<forall>x\<in>set pre. \<not> P x" "P l"
  shows "find_index_from P n (pre @ l # post) = Some (n + length pre)"
  using assms by (induction pre arbitrary: n) auto

lemma find_index_from_none:
  assumes "\<forall>x\<in>set ls. \<not> P x"
  shows "find_index_from P n ls = None"
  using assms by (induction ls arbitrary: n) auto

lemma splitlines_from_lines:
  "no_linebreak cur \<Longrightarrow> l \<in> set (splitlines_from cur s) \<Longrightarrow> no_linebreak l"
  by (induction cur s rule: splitlines_from.induct)
     (auto simp: no_linebreak_def split: if_splits)

lemma splitlines_lines: "l \<in> set (splitlines s) \<Longrightarrow> no_linebreak l"
  unfolding splitlines_def by (rule splitlines_from_lines [of "[]"]) (simp_all add: no_linebreak_def)









lemma extract_block_unclosed:
  assumes "splitlines text = pre @ l # post"
    and "\<forall>x\<in>set pre. \<not> startswith (strip x) marker"
    and "startswith (strip l) marker"
    and "\<forall>x\<in>set post. strip x \<noteq> ''```''"
  shows "extract_block marker warning text = (text, [warning])"
proof -
  have "find_index_from (\<lambda>line. startswith (strip line) marker) 0 (pre @ l # post)
          = Some (length pre)"
    using find_index_from_append [OF assms(2), of l 0 post] assms(3) by simp
  moreover have "find_index_from (\<lambda>line. strip line = ''```'') (length pre + 1) post = None"
    by (rule find_index_from_none) (use assms(4) in simp)
  ultimately show ?thesis
    by (simp add: extract_block_def assms(1))
qed

lemma parse_frontmatter_unclosed:
  assumes "splitlines text = l # post" "strip l = ''---''" "\<forall>x\<in>set post. strip x \<noteq> ''---''"
  shows "parse_frontmatter le text = Inr (Map.empty, text, [unclosed_frontmatter])"
proof -
  have "find_index_from (\<lambda>line. strip line = ''---'') 1 post = None"
    by (rule find_index_from_none) (use assms(3) in simp)
  then show ?thesis
    by (simp add: parse_frontmatter_def assms(1,2))
qed

text \<open>
  Claim C2. Soft failure. When the lines of a text have a first opening fence line
  \<open>l\<close> (none among the lines \<open>pre\<close> before it) and no line after it is a closing
  fence, \<^verbatim>\<open>extract_chatagent_block\<close> returns the whole text with exactly one warning
  (and so does \<^verbatim>\<open>extract_prompt_block\<close> for its fence).
  When the first line is a frontmatter delimiter and no later line is one,
  \<^verbatim>\<open>parse_frontmatter\<close> returns empty metadata, the whole text as body and exactly one
  warning. Both return normally.
\<close>

theorem soft_failure_fallback:
  "(splitlines text = pre @ l # post \<and>
    (\<forall>x\<in>set pre. \<not> startswith (strip x) ''```chatagent'') \<and>
    startswith (strip l) ''```chatagent'' \<and>
    (\<forall>x\<in>set post. strip x \<noteq> ''```'')
    \<longrightarrow> extract_chatagent_block text =
          (text, [''Chatagent block start found without closing ```.''])) \<and>
   (splitlines text = pre @ l # post \<and>
    (\<forall>x\<in>set pre. \<not> startswith (strip x) ''```prompt'') \<and>
    startswith (strip l) ''```prompt'' \<and>
    (\<forall>x\<in>set post. strip x \<noteq> ''```'')
    \<longrightarrow> extract_prompt_block text =
          (text, [''Prompt block start found without closing ```.''])) \<and>
   (splitlines text = l # post \<and> strip l = ''---'' \<and> (\<forall>x\<in>set post. strip x \<noteq> ''---'')
    \<longrightarrow> parse_frontmatter le text = Inr (Map.empty, text, [unclosed_frontmatter]))"
  using extract_block_unclosed [of "text" pre l post "''```chatagent''"]
    extract_block_unclosed [of "text" pre l post "''```prompt''"]
    parse_frontmatter_unclosed [of "text" l post le]
  by (simp add: extract_chatagent_block_def extract_prompt_block_def)

lemma parse_frontmatter_complete:
  assumes "splitlines text = l # fm @ d # post"
    and "strip l = ''---''" and "\<forall>x\<in>set fm. strip x \<noteq> ''---''" and "strip d = ''---''"
  shows "parse_frontmatter le text =
           (case frontmatter_loop le fm (Map.empty, []) of
              Inl e \<Rightarrow> Inl e
            | Inr (md, ws) \<Rightarrow> Inr (md, join [LF] post, ws))"
proof -
  have "find_index_from (\<lambda>line. strip line = ''---'') 1 (fm @ d # post) = Some (1 + length fm)"
    by (rule find_index_from_append) (use assms in simp_all)
  then show ?thesis
    by (simp add: parse_frontmatter_def assms(1,2) split: sum.splits prod.splits)
qed

lemma join_no_linebreak:
  assumes "\<forall>l\<in>set ls. no_linebreak l"
  shows "\<forall>c\<in>set (join [LF] ls). is_linebreak c \<longrightarrow> c = LF"
  using assms by (induction "[LF]" ls rule: join.induct) (auto simp: no_linebreak_def list_all_iff)

lemma join_ends_with_LF:
  assumes "\<forall>l\<in>set ls. no_linebreak l"
  shows "suffix [LF] (join [LF] ls) \<longleftrightarrow> 2 \<le> length ls \<and> last ls = []"
  using assms
proof (induction "[LF]" ls rule: join.induct)
  case 1
  then show ?case by simp
next
  case (2 x)
  then have "LF \<notin> set x" by (auto simp: no_linebreak_def list_all_iff is_linebreak_def)
  then show ?case by (auto simp: suffix_def)
next
  case (3 x y ys)
  then have ih: "suffix [LF] (join [LF] (y # ys)) \<longleftrightarrow> 2 \<le> length (y # ys) \<and> last (y # ys) = []"
    by simp
  from 3 have y: "LF \<notin> set y" by (auto simp: no_linebreak_def list_all_iff is_linebreak_def)
  show ?case
  proof (cases ys)
    case Nil
    with y show ?thesis by (cases y rule: rev_cases) (auto simp: suffix_def)
  next
    case (Cons z zs)
    then have ne: "join [LF] (y # ys) \<noteq> []" by simp
    then obtain u c where u: "join [LF] (y # ys) = u @ [c]"
      by (cases "join [LF] (y # ys)" rule: rev_cases) auto
    have "suffix [LF] (x @ [LF] @ join [LF] (y # ys)) \<longleftrightarrow> suffix [LF] (join [LF] (y # ys))"
      unfolding u by (simp add: suffix_def)
    with ih Cons show ?thesis by simp
  qed
qed


lemma splitlines_from_final_terminator:
  assumes "line_terminator t"
  shows "s \<noteq> [] \<Longrightarrow> \<not> is_linebreak (last s) \<Longrightarrow>
    splitlines_from cur (s @ t) = splitlines_from cur s"
proof (induction cur s rule: splitlines_from.induct)
  case (1 cur)
  then show ?case by simp
next
  case (2 cur c)
  from assms consider x where "t = [x]" "is_linebreak x" | "t = [CR, LF]"
    by (cases t rule: line_terminator.cases) auto
  then show ?case using 2 by cases (auto simp: is_linebreak_def)
next
  case (3 cur c d cs)
  have cs: "c = CR \<and> d = LF \<Longrightarrow> cs \<noteq> []"
    using "3.prems" by (auto simp: is_linebreak_def)
  show ?case using 3 cs by (auto split: if_splits)
qed

text \<open>
  Claim C10, amended. When a complete frontmatter block is found (first line \<open>l\<close> a
  delimiter, \<open>d\<close> the first delimiter after it, \<open>post\<close> the lines after \<open>d\<close>) and
  \<^verbatim>\<open>parse_frontmatter\<close> returns, the body is the lines \<open>post\<close> joined by LF; LF is its
  only line boundary; one final line terminator of the text is dropped (the text
  with and without it parse alike); and the body ends with a newline exactly when
  there are at least two lines after the block and the last is empty.
\<close>

theorem frontmatter_body_line_endings:
  assumes "splitlines text = l # fm @ d # post"
    and "strip l = ''---''" and "\<forall>x\<in>set fm. strip x \<noteq> ''---''" and "strip d = ''---''"
    and "parse_frontmatter le text = Inr (md, body, ws)"
  shows "body = join [LF] post \<and>
         (\<forall>c\<in>set body. is_linebreak c \<longrightarrow> c = LF) \<and>
         (endswith body [LF] \<longleftrightarrow> 2 \<le> length post \<and> last post = []) \<and>
         (line_terminator t \<and> \<not> is_linebreak (last text)
            \<longrightarrow> parse_frontmatter le (text @ t) = parse_frontmatter le text)"
proof -
  note shape = assms(1-4)
  have body: "body = join [LF] post"
    using assms(5) parse_frontmatter_complete [OF shape, of le]
    by (auto split: sum.splits prod.splits)
  have lines: "\<forall>x\<in>set post. no_linebreak x"
    using splitlines_lines [of _ "text"] assms(1) by auto
  have t: "parse_frontmatter le (text @ t) = parse_frontmatter le text"
    if "line_terminator t" "\<not> is_linebreak (last text)"
  proof -
    have "text \<noteq> []" using assms(1) by (auto simp: splitlines_def)
    with that have "splitlines (text @ t) = splitlines text"
      unfolding splitlines_def by (simp add: splitlines_from_final_terminator)
    with shape have "splitlines (text @ t) = l # fm @ d # post" by simp
    from parse_frontmatter_complete [OF this shape(2-4), of le]
      parse_frontmatter_complete [OF shape, of le]
    show ?thesis by simp
  qed
  show ?thesis
    using body join_no_linebreak [OF lines] join_ends_with_LF [OF lines] t
    by (simp add: endswith_def)
qed

text \<open>
  The claim as stated says the body never ends with a newline. A text that ends with
  an empty line gives a body that does.
\<close>

theorem frontmatter_body_counterexample:
  "parse_frontmatter literal_eval (''---'' @ [LF] @ ''---'' @ [LF] @ ''a'' @ [LF, LF])
     = Inr (Map.empty, ''a'' @ [LF], []) \<and>
   endswith (''a'' @ [LF]) [LF]"
  by (simp add: parse_frontmatter_def splitlines_def is_linebreak_def strip_def lstrip_def
      rstrip_def is_space_def endswith_def suffix_to_prefix)

theorem frontmatter_body_line_endings_witness:
  "parse_frontmatter literal_eval
     (''---'' @ [LF] @ ''title: x'' @ [CR, LF] @ ''---'' @ [LF] @ ''a'' @ [CR, LF] @ ''b'' @ [LF])
     = Inr ([''title'' \<mapsto> VStr ''x''], ''a'' @ [LF] @ ''b'', []) \<and>
   ''a'' @ [LF] @ ''b'' = join [LF] [''a'', ''b''] \<and>
   \<not> endswith (''a'' @ [LF] @ ''b'') [LF]"
proof -
  let ?text = "''---'' @ [LF] @ ''title: x'' @ [CR, LF] @ ''---'' @ [LF] @ ''a'' @ [CR, LF] @ ''b'' @ [LF]"
  have 1: "splitlines ?text = ''---'' # [''title: x''] @ ''---'' # [''a'', ''b'']"
    by (simp add: splitlines_def is_linebreak_def)
  have 2: "strip ''---'' = ''---''"
    by (simp add: strip_def lstrip_def rstrip_def is_space_def)
  have 3: "\<forall>x\<in>set [''title: x'']. strip x \<noteq> ''---''"
    by (simp add: strip_def lstrip_def rstrip_def is_space_def)
  have 5: "parse_frontmatter literal_eval ?text
             = Inr ([''title'' \<mapsto> VStr ''x''], ''a'' @ [LF] @ ''b'', [])"
    by (simp add: parse_frontmatter_def splitlines_def is_linebreak_def strip_def lstrip_def
      rstrip_def is_space_def startswith_def endswith_def parse_yaml_value_def Let_def)
  from frontmatter_body_line_endings [OF 1 2 3 2 5, of "[]"] 5
  show ?thesis by (simp add: endswith_def suffix_to_prefix)
qed

theorem soft_failure_fallback_witness:
  "extract_chatagent_block (''intro'' @ [LF] @ ''```chatagent'' @ [LF] @ ''---'' @ [LF] @ ''name: x'')
     = (''intro'' @ [LF] @ ''```chatagent'' @ [LF] @ ''---'' @ [LF] @ ''name: x'',
        [''Chatagent block start found without closing ```.'']) \<and>
   parse_frontmatter literal_eval (''---'' @ [LF] @ ''name: x'' @ [LF] @ ''body'')
     = Inr (Map.empty, ''---'' @ [LF] @ ''name: x'' @ [LF] @ ''body'', [unclosed_frontmatter])"
proof -
  let ?a = "''intro'' @ [LF] @ ''```chatagent'' @ [LF] @ ''---'' @ [LF] @ ''name: x''"
  let ?b = "''---'' @ [LF] @ ''name: x'' @ [LF] @ ''body''"
  have a: "splitlines ?a = [''intro''] @ ''```chatagent'' # [''---'', ''name: x'']"
    by (simp add: splitlines_def is_linebreak_def)
  have b: "splitlines ?b = ''---'' # [''name: x'', ''body'']"
    by (simp add: splitlines_def is_linebreak_def)
  have s: "strip ''intro'' = ''intro''" "strip ''```chatagent'' = ''```chatagent''"
    "strip ''---'' = ''---''" "strip ''name: x'' = ''name: x''" "strip ''body'' = ''body''"
    by (simp_all add: strip_def lstrip_def rstrip_def is_space_def)
  from soft_failure_fallback [of ?a "[''intro'']" "''```chatagent''" "[''---'', ''name: x'']"]
  have 1: "extract_chatagent_block ?a = (?a, [''Chatagent block start found without closing ```.''])"
    using a s by (simp add: startswith_def)
  from soft_failure_fallback [of ?b _ "''---''" "[''name: x'', ''body'']" literal_eval]
  have 2: "parse_frontmatter literal_eval ?b = Inr (Map.empty, ?b, [unclosed_frontmatter])"
    using b s by simp
  from 1 2 show ?thesis by simp
qed

section \<open>Frontmatter values and globs\<close>


lemma suffix_last [simp]: "suffix [b] (a # s @ [b])"
  by (rule suffixI [of _ "a # s"]) simp

lemma strip_Nil [simp]: "lstrip [] = []" "rstrip [] = []" "strip [] = []"
  by (simp_all add: lstrip_def rstrip_def strip_def)



lemma pyv_list: "parse_yaml_value literal_eval (CHR ''['' # SQ # CHR ''a'' # SQ # '', '' @ SQ # CHR ''b'' # SQ # '', '' @ SQ # CHR ''c'' # SQ # '']'')
         = Inr (VList [VStr ''a'', VStr ''b'', VStr ''c''])"
  by code_simp

lemma pyv_names: "parse_yaml_value literal_eval ''[a, b, c]'' = Inr (VStr ''[a, b, c]'')"
  by code_simp

lemma pyv_quoted: "strip raw = DQ # s @ [DQ] \<Longrightarrow> parse_yaml_value le raw = Inr (VStr s)"
  by (simp add: parse_yaml_value_def startswith_def endswith_def Let_def)

lemma pyv_bare: "strip raw \<noteq> [] \<Longrightarrow> \<not> bracketed (strip raw) \<Longrightarrow> \<not> quoted (strip raw) \<Longrightarrow> parse_yaml_value le raw = Inr (VStr (strip raw))"
  by (auto simp add: parse_yaml_value_def bracketed_def quoted_def Let_def)

lemma pyv_fail: "bracketed (strip raw) \<Longrightarrow> le (strip raw) = Inl e \<Longrightarrow> e = SyntaxError \<or> e = ValueError \<Longrightarrow> parse_yaml_value le raw = Inr (VStr (strip raw))"
  by (auto simp add: parse_yaml_value_def bracketed_def Let_def startswith_def)

lemma pyv_literal:
  "bracketed (strip raw) \<Longrightarrow> le (strip raw) = Inr literal \<Longrightarrow>
     parse_yaml_value le raw = Inr literal"
  by (auto simp add: parse_yaml_value_def bracketed_def Let_def startswith_def)

text \<open>
  \<^verbatim>\<open>TypeError\<close> is not among the exceptions \<^verbatim>\<open>parse_yaml_value\<close> catches: a set
  display with a list in it leaves the function as an exception.
\<close>

lemma pyv_raise: "parse_yaml_value literal_eval ''[{[]}]'' = Inl TypeError"
  by code_simp


text \<open>
  Claim C1, amended. A bracketed value of quoted items, \<^verbatim>\<open>['a', 'b', 'c']\<close>, parses to
  the sequence of the strings a, b, c; the value \<^verbatim>\<open>[a, b, c]\<close> of bare names, on which
  literal evaluation fails, stays the raw string \<^verbatim>\<open>[a, b, c]\<close>. A value wrapped in
  double quotes parses to the string between them; a bare value, neither bracketed
  nor quoted, parses to itself, trimmed. For every bracketed value on which literal
  evaluation fails with \<^verbatim>\<open>SyntaxError\<close> or \<^verbatim>\<open>ValueError\<close>, \<^verbatim>\<open>parse_yaml_value\<close>
  returns the trimmed raw string and does not raise; on one it evaluates, the
  literal.
\<close>

theorem parse_yaml_value_grammar:
  "parse_yaml_value literal_eval
     (CHR ''['' # SQ # CHR ''a'' # SQ # '', '' @ SQ # CHR ''b'' # SQ # '', '' @ SQ # CHR ''c'' # SQ # '']'')
     = Inr (VList [VStr ''a'', VStr ''b'', VStr ''c'']) \<and>
   parse_yaml_value literal_eval ''[a, b, c]'' = Inr (VStr ''[a, b, c]'') \<and>
   (strip raw = DQ # s @ [DQ] \<longrightarrow> parse_yaml_value le raw = Inr (VStr s)) \<and>
   (strip raw \<noteq> [] \<and> \<not> bracketed (strip raw) \<and> \<not> quoted (strip raw)
      \<longrightarrow> parse_yaml_value le raw = Inr (VStr (strip raw))) \<and>
   (bracketed (strip raw) \<and> (le (strip raw) = Inl SyntaxError \<or> le (strip raw) = Inl ValueError)
      \<longrightarrow> parse_yaml_value le raw = Inr (VStr (strip raw))) \<and>
   (bracketed (strip raw) \<and> le (strip raw) = Inr literal
      \<longrightarrow> parse_yaml_value le raw = Inr literal)"
  using pyv_list pyv_names pyv_quoted [of raw s le] pyv_bare [of raw le] pyv_fail [of raw le]
    pyv_literal [of raw le literal]
  by blast

theorem parse_yaml_value_grammar_witness:
  "parse_yaml_value literal_eval ('' '' @ DQ # ''quoted'' @ [DQ]) = Inr (VStr ''quoted'') \<and>
   parse_yaml_value literal_eval '' foo'' = Inr (VStr ''foo'') \<and>
   literal_eval ''[a b]'' = Inl SyntaxError \<and>
   parse_yaml_value literal_eval '' [a b]'' = Inr (VStr ''[a b]'')"
proof -
  have s: "strip ('' '' @ DQ # ''quoted'' @ [DQ]) = DQ # ''quoted'' @ [DQ]"
    "strip '' foo'' = ''foo''" "strip '' [a b]'' = ''[a b]''"
    by (simp_all add: strip_def lstrip_def rstrip_def is_space_def)
  have b: "\<not> bracketed ''foo''" "\<not> quoted ''foo''" "bracketed ''[a b]''"
    by (simp_all add: bracketed_def quoted_def startswith_def endswith_def suffix_to_prefix)
  have e: "literal_eval ''[a b]'' = Inl SyntaxError" by code_simp
  have 1: "parse_yaml_value literal_eval ('' '' @ DQ # ''quoted'' @ [DQ]) = Inr (VStr ''quoted'')"
    using parse_yaml_value_grammar [of "'' '' @ DQ # ''quoted'' @ [DQ]" "''quoted''" literal_eval] s
    by simp
  have 2: "parse_yaml_value literal_eval '' foo'' = Inr (VStr ''foo'')"
    using parse_yaml_value_grammar [of "'' foo''" _ literal_eval] s b by simp
  have 3: "parse_yaml_value literal_eval '' [a b]'' = Inr (VStr ''[a b]'')"
    using parse_yaml_value_grammar [of "'' [a b]''" _ literal_eval] s b e by simp
  from 1 2 3 e show ?thesis by blast
qed

text \<open>The claim as stated has \<^verbatim>\<open>[a, b, c]\<close> parse to the sequence of a, b, c.\<close>

theorem parse_yaml_value_bare_list_counterexample:
  "parse_yaml_value literal_eval ''[a, b, c]'' \<noteq> Inr (VList [VStr ''a'', VStr ''b'', VStr ''c''])"
  by code_simp







text \<open>
  The scenario of the specification, through \<^verbatim>\<open>convert_file\<close> of
  \<^verbatim>\<open>instructions2rules.py\<close>: the file that is written.
\<close>

lemma instruction_scenario:
  "(case convert_file_instructions literal_eval ''cursor/rules''
           [\<lparr>parent = ''copilot/instructions'', name = ''go.instructions.md''\<rparr> \<mapsto>
              Text (''---'' @ [LF] @ ''applyTo: '' @ [DQ] @ ''*.go, *.rs'' @ [DQ] @ [LF] @
                    ''description: '' @ [DQ] @ ''Go/Rust style'' @ [DQ] @ [LF] @
                    ''---'' @ [LF] @ ''Body text'')]
           \<lparr>parent = ''copilot/instructions'', name = ''go.instructions.md''\<rparr> of
      Inl e \<Rightarrow> False
    | Inr (r, fs') \<Rightarrow>
        success r \<and> warnings r = [] \<and>
        fs' \<lparr>parent = ''cursor/rules'', name = ''go.mdc''\<rparr> =
          Some (Text (''---'' @ [LF] @
                      ''description: '' @ [DQ] @ ''Go/Rust style'' @ [DQ] @ [LF] @
                      ''globs:'' @ [LF] @
                      ''  - '' @ [DQ] @ ''*.go'' @ [DQ] @ [LF] @
                      ''  - '' @ [DQ] @ ''*.rs'' @ [DQ] @ [LF] @
                      ''alwaysApply: false'' @ [LF] @
                      ''---'' @ [LF] @
                      ''Body text'' @ [LF])))"
  by code_simp

section \<open>The rule text\<close>

lemma replace_single:
  "replace [c] new s = concat (map (\<lambda>x. if x = c then new else [x]) s)"
  by (induction s) (auto simp: replace_Nil replace_Cons)

lemma yaml_quote_escaped: "yaml_quote v = [DQ] @ escaped v @ [DQ]"
proof -
  have "concat (map (\<lambda>x. if x = DQ then [BSL, DQ] else [x])
          (concat (map (\<lambda>x. if x = BSL then [BSL, BSL] else [x]) v))) = escaped v"
    by (induction v) (simp_all add: escaped_def)
  then show ?thesis by (simp add: yaml_quote_def replace_single)
qed

lemma join_lines: "ls \<noteq> [] \<Longrightarrow> join sep ls @ sep = concat (map (\<lambda>l. l @ sep) ls)"
  by (induction sep ls rule: join.induct) simp_all

lemma body_text_eq:
  "(if startswith s [LF] then tl s else s) = strip_leading_newline s"
  by (cases s) (simp_all add: startswith_def)

lemma build_rule_content_shape:
  "build_rule_content description globs always_apply body =
     ''---'' @ [LF] @
     ''description: '' @ [DQ] @ escaped (normalize_text description) @ [DQ] @ [LF] @
     globs_block globs @
     ''alwaysApply: '' @ (if always_apply then ''true'' else ''false'') @ [LF] @
     ''---'' @ [LF] @
     (if strip_leading_newline (normalize_text body) = [] then []
      else strip_leading_newline (normalize_text body) @ [LF])"
proof -
  let ?lines = "[''---'', ''description: '' @ yaml_quote (normalize_text description)] @
            (if globs \<noteq> [] then ''globs:'' # map (\<lambda>glob. ''  - '' @ yaml_quote glob) globs
             else [''globs: []'']) @
            [''alwaysApply: '' @ (if always_apply then ''true'' else ''false''), ''---'']"
  have g: "concat (map (\<lambda>l. l @ [LF]) (map (\<lambda>glob. ''  - '' @ yaml_quote glob) globs))
      = concat (map (\<lambda>glob. ''  - '' @ [DQ] @ escaped glob @ [DQ] @ [LF]) globs)"
    by (induction globs) (simp_all add: yaml_quote_escaped)
  have "join [LF] ?lines @ [LF] = concat (map (\<lambda>l. l @ [LF]) ?lines)"
    by (rule join_lines) simp
  also have "\<dots> = ''---'' @ [LF] @
     ''description: '' @ [DQ] @ escaped (normalize_text description) @ [DQ] @ [LF] @
     globs_block globs @
     ''alwaysApply: '' @ (if always_apply then ''true'' else ''false'') @ [LF] @
     ''---'' @ [LF]"
    using g by (simp add: globs_block_def yaml_quote_escaped)
  finally have h: "join [LF] ?lines @ [LF] = ''---'' @ [LF] @
     ''description: '' @ [DQ] @ escaped (normalize_text description) @ [DQ] @ [LF] @
     globs_block globs @
     ''alwaysApply: '' @ (if always_apply then ''true'' else ''false'') @ [LF] @
     ''---'' @ [LF]" .
  have "build_rule_content description globs always_apply body =
      (if strip_leading_newline (normalize_text body) \<noteq> []
       then (join [LF] ?lines @ [LF]) @ strip_leading_newline (normalize_text body) @ [LF]
       else join [LF] ?lines @ [LF])"
    unfolding build_rule_content_def Let_def body_text_eq by simp
  also have "\<dots> = (join [LF] ?lines @ [LF]) @
      (if strip_leading_newline (normalize_text body) = [] then []
       else strip_leading_newline (normalize_text body) @ [LF])"
    by simp
  finally show ?thesis unfolding h by simp
qed


text \<open>
  Claim C6, amended. For every description, glob list, \<^verbatim>\<open>alwaysApply\<close> flag and body
  the rule text is: a delimiter line; a description line whose value is the
  normalized description in double quotes, with a backslash before each backslash
  and each double quote; the globs block (\<^verbatim>\<open>globs: []\<close> when empty, otherwise
  \<^verbatim>\<open>globs:\<close> and one quoted glob per entry); the \<^verbatim>\<open>alwaysApply\<close> line; a delimiter
  line; then the normalized body without one leading newline, followed by one
  newline when it is not empty. The text ends with a newline; it ends with two
  exactly when that body itself ends with one. The rule text of \<^verbatim>\<open>agents2rules.py\<close>
  is the one with no glob and \<^verbatim>\<open>alwaysApply: false\<close>.
\<close>

theorem rule_emitter_shape:
  "build_rule_content description globs always_apply body =
     ''---'' @ [LF] @
     ''description: '' @ [DQ] @ escaped (normalize_text description) @ [DQ] @ [LF] @
     globs_block globs @
     ''alwaysApply: '' @ (if always_apply then ''true'' else ''false'') @ [LF] @
     ''---'' @ [LF] @
     (if strip_leading_newline (normalize_text body) = [] then []
      else strip_leading_newline (normalize_text body) @ [LF]) \<and>
   endswith (build_rule_content description globs always_apply body) [LF] \<and>
   (endswith (build_rule_content description globs always_apply body) [LF, LF]
      \<longleftrightarrow> endswith (strip_leading_newline (normalize_text body)) [LF]) \<and>
   build_rule_content_agents description body = build_rule_content description [] False body"
proof -
  let ?b = "strip_leading_newline (normalize_text body)"
  let ?r = "build_rule_content description globs always_apply body"
  note shape = build_rule_content_shape [of description globs always_apply body]
  have 1: "suffix [LF] ?r"
    unfolding shape by (simp add: suffix_def)
  have 2: "suffix [LF, LF] ?r \<longleftrightarrow> suffix [LF] ?b"
  proof (cases "?b = []")
    case True
    then show ?thesis unfolding shape by (simp add: suffix_def)
  next
    case False
    then obtain u c where u: "?b = u @ [c]" by (cases ?b rule: rev_cases) auto
    show ?thesis unfolding shape u by (simp add: suffix_def)
  qed
  have 3: "build_rule_content_agents description body = build_rule_content description [] False body"
    by (simp add: build_rule_content_agents_def build_rule_content_def)
  from shape 1 2 3 show ?thesis unfolding endswith_def by blast
qed

text \<open>
  The claim as stated has every rule text end with exactly one newline. A body that
  ends with a newline gives a text that ends with two.
\<close>

theorem rule_emitter_two_newlines_counterexample:
  "endswith (build_rule_content ''d'' [] False (''Body'' @ [LF])) [LF, LF]"
  by code_simp

section \<open>Reading an emitted rule back\<close>








































section \<open>The batch loop and the exit status\<close>


lemma batch_loop_counts:
  "batch_loop conv fs srcs (c, f, w) = Inr ((c', f', w'), fs') \<Longrightarrow>
     c' = c + length (filter success (results_of conv fs srcs)) \<and>
     f' = f + length (filter (\<lambda>r. \<not> success r) (results_of conv fs srcs)) \<and>
     w' = w + sum_list (map (\<lambda>r. length (warnings r)) (results_of conv fs srcs)) \<and>
     length (results_of conv fs srcs) = length srcs"
proof (induction srcs arbitrary: fs c f w)
  case Nil
  then show ?case by simp
next
  case (Cons src rest)
  from Cons.prems obtain result fs1 where r: "conv fs src = Inr (result, fs1)"
    by (auto split: sum.splits)
  with Cons.prems have
    "batch_loop conv fs1 rest
       (if success result then c + 1 else c, if success result then f else f + 1,
        w + length (warnings result)) = Inr ((c', f', w'), fs')"
    by simp
  from Cons.IH [OF this] r show ?case by auto
qed

text \<open>
  Claim C8. For every run of \<^verbatim>\<open>main\<close> that passes the checks of its command line and
  returns, the exit status is non-zero exactly when the result of at least one
  candidate file has \<^verbatim>\<open>success\<close> false; it is 0 or 1; it is 0 when there is no
  candidate file, and so when every file converted; the warnings have no part in
  it. Every candidate file has its result. (\<^verbatim>\<open>main\<close> of the three converters is
  \<open>main_with\<close> at its own suffix and \<^verbatim>\<open>convert_file\<close>.)
\<close>

theorem exit_status:
  assumes "accepted_argument file_suffix fs arg"
    and "main_with file_suffix conv fs arg found = Inr (code, fs')"
  shows "(code \<noteq> 0 \<longleftrightarrow> (\<exists>r\<in>set (results_of conv fs (candidates arg found)). \<not> success r)) \<and>
         (code = 0 \<or> code = 1) \<and>
         (candidates arg found = [] \<longrightarrow> code = 0) \<and>
         length (results_of conv fs (candidates arg found)) = length (candidates arg found)"
proof -
  let ?srcs = "candidates arg found"
  from assms have run: "run_batch conv fs ?srcs = Inr (code, fs')"
    by (auto simp: main_with_def accepted_argument_def candidates_def split: option.splits)
  show ?thesis
  proof (cases "?srcs = []")
    case True
    with run show ?thesis by (simp add: run_batch_def)
  next
    case False
    with run obtain c f w where
      l: "batch_loop conv fs ?srcs (0, 0, 0) = Inr ((c, f, w), fs')"
      and code: "code = (if f \<noteq> 0 then 1 else 0)"
      by (auto simp: run_batch_def split: sum.splits)
    from batch_loop_counts [OF l]
    have f: "f = length (filter (\<lambda>r. \<not> success r) (results_of conv fs ?srcs))"
      and n: "length (results_of conv fs ?srcs) = length ?srcs" by simp_all
    have "f \<noteq> 0 \<longleftrightarrow> (\<exists>r\<in>set (results_of conv fs ?srcs). \<not> success r)"
      unfolding f by (simp add: filter_empty_conv)
    with code n False show ?thesis by auto
  qed
qed

text \<open>A source that cannot be opened is recorded in the result of its file.\<close>

lemma read_failure_is_recorded:
  "read_text fs source_path = Inl (OSError m) \<Longrightarrow>
     convert_file_agents le destination_dir fs source_path =
       Inr (\<lparr>source = source_path, destination = None, success = False,
             warnings = [], error = Some m\<rparr>, fs)"
  by (simp add: convert_file_agents_def)

text \<open>
  Claim C7 says that no exception leaves the loop of \<^verbatim>\<open>main\<close>. \<^verbatim>\<open>convert_file\<close>
  catches \<^verbatim>\<open>OSError\<close> around its read and its write, and \<^verbatim>\<open>parse_yaml_value\<close> catches
  \<^verbatim>\<open>SyntaxError\<close> and \<^verbatim>\<open>ValueError\<close>; the loop itself catches nothing. Here the first
  of two agent files has a frontmatter value on which literal evaluation raises
  \<^verbatim>\<open>TypeError\<close>: the exception leaves \<^verbatim>\<open>main\<close>, with no result for either file.
\<close>

theorem batch_aborts_on_type_error:
  "(case main_agents literal_eval ''cursor/rules''
           [\<lparr>parent = ''copilot/agents'', name = ''a.agent.md''\<rparr> \<mapsto>
              Text (''---'' @ [LF] @ ''tools: [{[]}]'' @ [LF] @ ''---'' @ [LF] @ ''Body''),
            \<lparr>parent = ''copilot/agents'', name = ''b.agent.md''\<rparr> \<mapsto> Text ''Body'']
           None
           [\<lparr>parent = ''copilot/agents'', name = ''a.agent.md''\<rparr>,
            \<lparr>parent = ''copilot/agents'', name = ''b.agent.md''\<rparr>] of
      Inl e \<Rightarrow> e = TypeError
    | Inr r \<Rightarrow> False)"
  by code_simp

text \<open>A source that is not UTF-8 raises \<^verbatim>\<open>UnicodeDecodeError\<close>, no \<^verbatim>\<open>OSError\<close>.\<close>

lemma undecodable_source_raises:
  "fs source_path = Some Undecodable \<Longrightarrow>
     convert_file_agents le destination_dir fs source_path = Inl UnicodeDecodeError"
  by (simp add: convert_file_agents_def read_text_def)


theorem exit_status_witness:
  "(case main_agents literal_eval ''cursor/rules''
           [\<lparr>parent = ''copilot/agents'', name = ''a.agent.md''\<rparr> \<mapsto> Text ''First'',
            \<lparr>parent = ''copilot/agents'', name = ''b.agent.md''\<rparr> \<mapsto> Denied ''Permission denied'',
            \<lparr>parent = ''copilot/agents'', name = ''c.agent.md''\<rparr> \<mapsto> Text ''Third'']
           None
           [\<lparr>parent = ''copilot/agents'', name = ''a.agent.md''\<rparr>,
            \<lparr>parent = ''copilot/agents'', name = ''b.agent.md''\<rparr>,
            \<lparr>parent = ''copilot/agents'', name = ''c.agent.md''\<rparr>] of
      Inl e \<Rightarrow> False
    | Inr (code, fs') \<Rightarrow> code = 1) \<and>
   (case main_instructions literal_eval ''cursor/rules''
           [\<lparr>parent = ''copilot/instructions'', name = ''w.instructions.md''\<rparr> \<mapsto>
              Text (''---'' @ [LF] @ ''never closed'')]
           (Some \<lparr>parent = ''copilot/instructions'', name = ''w.instructions.md''\<rparr>)
           [] of
      Inl e \<Rightarrow> False
    | Inr (code, fs') \<Rightarrow> code = 0)"
proof -
  let ?a = "\<lparr>parent = ''copilot/agents'', name = ''a.agent.md''\<rparr>"
  let ?b = "\<lparr>parent = ''copilot/agents'', name = ''b.agent.md''\<rparr>"
  let ?c = "\<lparr>parent = ''copilot/agents'', name = ''c.agent.md''\<rparr>"
  let ?w = "\<lparr>parent = ''copilot/instructions'', name = ''w.instructions.md''\<rparr>"
  let ?fs = "[?a \<mapsto> Text ''First'', ?b \<mapsto> Denied ''Permission denied'', ?c \<mapsto> Text ''Third'']"
  let ?fsw = "[?w \<mapsto> Text (''---'' @ [LF] @ ''never closed'')]"
  let ?conv = "convert_file_agents literal_eval ''cursor/rules''"
  let ?convi = "convert_file_instructions literal_eval ''cursor/rules''"
  have "case main_agents literal_eval ''cursor/rules'' ?fs None [?a, ?b, ?c] of
          Inl e \<Rightarrow> False | Inr r \<Rightarrow> True"
    by code_simp
  then obtain code fs' where
    r: "main_with ''.agent.md'' ?conv ?fs None [?a, ?b, ?c] = Inr (code, fs')"
    by (auto simp: main_agents_def split: sum.splits)
  have acc: "accepted_argument ''.agent.md'' ?fs None"
    by (simp add: accepted_argument_def)
  have "list_ex (\<lambda>r. \<not> success r) (results_of ?conv ?fs (candidates None [?a, ?b, ?c]))"
    by code_simp
  then have "\<exists>r\<in>set (results_of ?conv ?fs (candidates None [?a, ?b, ?c])). \<not> success r"
    by (simp add: list_ex_iff)
  with exit_status [OF acc r] have "code = 1" by blast
  with r have 1: "case main_agents literal_eval ''cursor/rules'' ?fs None [?a, ?b, ?c] of
      Inl e \<Rightarrow> False | Inr (code, fs') \<Rightarrow> code = 1"
    by (simp add: main_agents_def)
  have "case main_instructions literal_eval ''cursor/rules'' ?fsw (Some ?w) [] of
          Inl e \<Rightarrow> False | Inr r \<Rightarrow> True"
    by code_simp
  then obtain code2 fs2 where
    r2: "main_with ''.instructions.md'' ?convi ?fsw (Some ?w) [] = Inr (code2, fs2)"
    by (auto simp: main_instructions_def split: sum.splits)
  have acc2: "accepted_argument ''.instructions.md'' ?fsw (Some ?w)"
    by code_simp
  have "list_all (\<lambda>r. success r \<and> warnings r \<noteq> []) (results_of ?convi ?fsw (candidates (Some ?w) []))"
    by code_simp
  then have "\<not> (\<exists>r\<in>set (results_of ?convi ?fsw (candidates (Some ?w) [])). \<not> success r)"
    by (simp add: list_all_iff)
  with exit_status [OF acc2 r2] have "code2 = 0" by blast
  with r2 have 2: "case main_instructions literal_eval ''cursor/rules'' ?fsw (Some ?w) [] of
      Inl e \<Rightarrow> False | Inr (code, fs') \<Rightarrow> code = 0"
    by (simp add: main_instructions_def)
  from 1 2 show ?thesis by blast
qed

section \<open>A description that is no string\<close>


lemma rstrip_empty_iff: "rstrip s = [] \<longleftrightarrow> (\<forall>c\<in>set s. is_space c)"
  by (simp add: rstrip_def dropWhile_eq_Nil_conv)

lemma rstrip_append:
  "rstrip (a @ b) = (if rstrip b = [] then rstrip a else a @ rstrip b)"
  by (simp add: rstrip_def dropWhile_append dropWhile_eq_Nil_conv)

lemma rstrip_snoc: "\<not> is_space c \<Longrightarrow> rstrip (s @ [c]) = s @ [c]"
  by (simp add: rstrip_def)

lemma command_without_description:
  "build_command_content title None body filename_stem =
     ''# '' @ title (replace ''_'' '' '' (replace ''-'' '' '' filename_stem)) @ [LF, LF] @
     ''Use any text after the command as additional context.'' @
     (if rstrip (normalize_text body) = [] then [] else [LF, LF] @ rstrip (normalize_text body)) @
     [LF]"
proof -
  let ?h = "''# '' @ title (replace ''_'' '' '' (replace ''-'' '' '' filename_stem))"
  let ?u = "''Use any text after the command as additional context.''"
  let ?nb = "normalize_text body"
  have u: "rstrip (?h @ [LF, LF] @ ?u) = ?h @ [LF, LF] @ ?u"
    using rstrip_snoc [of "CHR ''.''" "?h @ [LF, LF] @ ''Use any text after the command as additional context''"]
    by (simp add: is_space_def)
  have lf: "rstrip [LF] = []" "rstrip [LF, LF] = []"
    by (simp_all add: rstrip_def is_space_def)
  show ?thesis
  proof (cases "?nb = []")
    case True
    have "rstrip ((?h @ [LF, LF] @ ?u) @ [LF]) = ?h @ [LF, LF] @ ?u"
      unfolding rstrip_append [of "?h @ [LF, LF] @ ?u"] using lf u by simp
    with True show ?thesis
      by (simp add: build_command_content_def)
  next
    case False
    have "rstrip ((?h @ [LF, LF] @ ?u) @ [LF, LF] @ ?nb) =
        (if rstrip ?nb = [] then ?h @ [LF, LF] @ ?u
         else (?h @ [LF, LF] @ ?u) @ [LF, LF] @ rstrip ?nb)"
      using lf u
      by (simp only: rstrip_append [of "?h @ [LF, LF] @ ?u"] rstrip_append [of "[LF, LF]"]
          split: if_splits) simp
    with False show ?thesis
      by (simp add: build_command_content_def)
  qed
qed

lemma frontmatter_loop_warnings:
  "frontmatter_loop le ls (md, ws) = Inr (md', ws') \<Longrightarrow>
     \<forall>w\<in>set ws'. w \<in> set ws \<or> prefix ''Unrecognized frontmatter line: '' w"
proof (induction ls arbitrary: md ws)
  case Nil
  then show ?case by simp
next
  case (Cons line rest)
  show ?case
  proof (cases "strip line = [] \<or> startswith (strip line) ''#''")
    case True
    with Cons show ?thesis by simp
  next
    case False
    show ?thesis
    proof (cases "CHR '':'' \<in> set line")
      case True
      with False Cons.prems obtain v where
        "frontmatter_loop le rest
           (md(strip (takeWhile (\<lambda>c. c \<noteq> CHR '':'') line) \<mapsto> v), ws) = Inr (md', ws')"
        by (auto split: sum.splits)
      from Cons.IH [OF this] show ?thesis .
    next
      case no_colon: False
      with False Cons.prems have
        "frontmatter_loop le rest (md, ws @ [''Unrecognized frontmatter line: '' @ line])
           = Inr (md', ws')"
        by simp
      from Cons.IH [OF this] show ?thesis by auto
    qed
  qed
qed

lemma parse_frontmatter_warnings:
  assumes "parse_frontmatter le t = Inr (md, body, ws)"
  shows "description_warning \<notin> set ws"
proof -
  have u: "description_warning \<noteq> unclosed_frontmatter"
    by (simp add: description_warning_def unclosed_frontmatter_def)
  have p: "\<not> prefix ''Unrecognized frontmatter line: '' description_warning"
    by (simp add: description_warning_def)
  from assms consider "ws = []" | "ws = [unclosed_frontmatter]"
    | fm md' where "frontmatter_loop le fm (Map.empty, []) = Inr (md', ws)"
    by (auto simp: parse_frontmatter_def Let_def split: if_splits option.splits sum.splits)
  then show ?thesis
  proof cases
    case 3
    from frontmatter_loop_warnings [OF 3] p show ?thesis by auto
  qed (use u in auto)
qed

lemma extract_prompt_block_warnings:
  "description_warning \<notin> set (snd (extract_prompt_block t))"
  by (auto simp: extract_prompt_block_def extract_block_def Let_def description_warning_def
      split: option.splits)


lemma write_text_cases:
  "(\<exists>m. write_text fs p c = Inl (OSError m)) \<or> write_text fs p c = Inr (fs(p \<mapsto> Text c))"
  by (simp add: write_text_def split: option.splits fnode.splits)

text \<open>
  Claim C9. Prompt dialect: when the metadata of a readable prompt file hold a
  description that is no string (a list, say), \<^verbatim>\<open>convert_file\<close> returns a result
  whose warnings are those of the fence and of the frontmatter followed by the
  warning about the description, which is there exactly once; and the command file
  it writes goes from the heading line to an empty line and the fixed line: it has
  no description line, and nothing of the file name stands in for one.
\<close>

theorem prompt_description_not_string:
  assumes "read_text fs source_path = Inr text"
    and "parse_frontmatter le (fst (extract_prompt_block text)) = Inr (md, body, parse_warnings)"
    and "md ''description'' = Some v" and "\<not> is_string v" and "v \<noteq> VNone"
  shows
    "case convert_file_prompts le title destination_dir fs source_path of
       Inl e \<Rightarrow> False
     | Inr (res, fs') \<Rightarrow>
         warnings res = snd (extract_prompt_block text) @ parse_warnings @ [description_warning] \<and>
         count_list (warnings res) description_warning = 1 \<and>
         (success res \<longrightarrow>
            fs' \<lparr>parent = destination_dir,
                 name = replace ''.prompt.md'' ''.md'' (name source_path)\<rparr> =
              Some (Text
                (''# '' @ title (replace ''_'' '' '' (replace ''-'' '' ''
                                   (replace ''.prompt'' [] (stem source_path)))) @ [LF, LF] @
                 ''Use any text after the command as additional context.'' @
                 (if rstrip (normalize_text body) = [] then []
                  else [LF, LF] @ rstrip (normalize_text body)) @
                 [LF])))"
proof -
  let ?ws = "snd (extract_prompt_block text) @ parse_warnings @ [description_warning]"
  let ?dest = "\<lparr>parent = destination_dir,
                 name = replace ''.prompt.md'' ''.md'' (name source_path)\<rparr>"
  let ?content = "build_command_content title None body (replace ''.prompt'' [] (stem source_path))"
  have w: "(case md ''description'' of None \<Rightarrow> [] | Some VNone \<Rightarrow> []
            | Some v \<Rightarrow> if is_string v then [] else [description_warning]) = [description_warning]"
    using assms(3-5) by (cases v) simp_all
  have d: "(case md ''description'' of Some (VStr d) \<Rightarrow> Some d | _ \<Rightarrow> None) = None"
    using assms(3,4) by (cases v) simp_all
  have c1: "count_list ?ws description_warning = 1"
    using extract_prompt_block_warnings [of "text"] parse_frontmatter_warnings [OF assms(2)]
    by (simp add: count_list_0_iff)
  from write_text_cases [of fs ?dest ?content]
  consider m where "write_text fs ?dest ?content = Inl (OSError m)"
    | "write_text fs ?dest ?content = Inr (fs(?dest \<mapsto> Text ?content))"
    by blast
  then show ?thesis
  proof cases
    case 1
    then show ?thesis
      using c1 by (simp add: convert_file_prompts_def assms(1,2) Let_def w d)
  next
    case 2
    then show ?thesis
      using c1
      by (simp add: convert_file_prompts_def assms(1,2) Let_def w d command_without_description)
  qed
qed

theorem prompt_description_not_string_witness:
  "(case convert_file_prompts literal_eval ascii_title ''cursor/commands''
           [\<lparr>parent = ''copilot/prompts'', name = ''my-task.prompt.md''\<rparr> \<mapsto>
              Text (''---'' @ [LF] @ ''description: ['' @ [SQ] @ ''a'' @ [SQ] @ '', '' @
                    [SQ] @ ''b'' @ [SQ] @ '']'' @ [LF] @ ''---'' @ [LF] @ ''Hello'')]
           \<lparr>parent = ''copilot/prompts'', name = ''my-task.prompt.md''\<rparr> of
      Inl e \<Rightarrow> False
    | Inr (res, fs') \<Rightarrow>
        warnings res = [description_warning] \<and> success res \<and>
        fs' \<lparr>parent = ''cursor/commands'', name = ''my-task.md''\<rparr> =
          Some (Text (''# My Task'' @ [LF, LF] @
                      ''Use any text after the command as additional context.'' @ [LF, LF] @
                      ''Hello'' @ [LF])))"
proof -
  let ?p = "\<lparr>parent = ''copilot/prompts'', name = ''my-task.prompt.md''\<rparr>"
  let ?t = "''---'' @ [LF] @ ''description: ['' @ [SQ] @ ''a'' @ [SQ] @ '', '' @
                    [SQ] @ ''b'' @ [SQ] @ '']'' @ [LF] @ ''---'' @ [LF] @ ''Hello''"
  let ?fs = "[?p \<mapsto> Text ?t]"
  have r: "read_text ?fs ?p = Inr ?t" by (simp add: read_text_def)
  have x: "extract_prompt_block ?t = (?t, [])" by code_simp
  have v: "parse_yaml_value literal_eval ('' ['' @ [SQ] @ ''a'' @ [SQ] @ '', '' @
                    [SQ] @ ''b'' @ [SQ] @ '']'') = Inr (VList [VStr ''a'', VStr ''b''])"
    by code_simp
  have p: "parse_frontmatter literal_eval (fst (extract_prompt_block ?t))
      = Inr ([''description'' \<mapsto> VList [VStr ''a'', VStr ''b'']], ''Hello'', [])"
    unfolding x using v
    by (simp add: parse_frontmatter_def splitlines_def is_linebreak_def strip_def lstrip_def
        rstrip_def is_space_def startswith_def)
  have t: "replace ''.prompt.md'' ''.md'' ''my-task.prompt.md'' = ''my-task.md''"
    "ascii_title (replace ''_'' '' '' (replace ''-'' '' ''
        (replace ''.prompt'' [] (stem ?p)))) = ''My Task''"
    "rstrip (normalize_text ''Hello'') = ''Hello''"
    by code_simp+
  have ok: "case convert_file_prompts literal_eval ascii_title ''cursor/commands'' ?fs ?p of
      Inl e \<Rightarrow> False | Inr (res, fs') \<Rightarrow> success res"
    by code_simp
  from prompt_description_not_string [where v = "VList [VStr ''a'', VStr ''b'']"
      and title = ascii_title and destination_dir = "''cursor/commands''", OF r p] ok
  show ?thesis
    unfolding x by (auto simp: t split: sum.splits)
qed

section \<open>The rule written for an instruction file\<close>







end
